theory Spec2Isabelle
  imports Complex_Main "HOL-Library.AList" "HOL-Library.Multiset"
begin

section \<open>Data model\<close>

text \<open>
  JavaScript numbers are modelled as exact reals; integers the byte-codec delivers
  (channel nibble, note number, program number, tick counts) are naturals, and the
  fields where the source uses the sentinel \<open>-1\<close> are integers. A property that is
  \<open>undefined\<close> is \<open>None\<close>. Objects are values: a note or control change is
  pushed into exactly one track, so no statement below depends on two references to
  one object, except in \<open>toJSON\<close>, where the sharing of the header is written out.
  A division by zero gives 0 in HOL and an infinity or NaN in JavaScript; the statements
  below either fix the numbers (the scenario), assume the divisors positive (\<open>set bpm\<close>)
  or do not speak of the values of times at all.
\<close>

datatype js_error = TypeError | DecoderError string

text \<open>
  Modelled from the spec: the classes \<open>Note\<close> and \<open>Control\<close> (\<open>Note.js\<close> and
  \<open>Control.js\<close> are absent), section 3; their fields are those \<open>Midi.js\<close> reads
  and writes. Notes and control changes are both scanned by \<open>applyTempo\<close> through their \<open>time\<close>
  and \<open>duration\<close> properties, and both resolved by the splitter through \<open>channel\<close>
  and \<open>instrument\<close>. A \<open>Control\<close> has no \<open>duration\<close> property: reading it gives
  \<open>undefined\<close>, that is \<open>None\<close>.
\<close>

record element =
  time :: real
  duration :: "real option"

record chan_element = element +
  channel :: int
  instrument :: int

record Note = chan_element +
  midi :: nat
  velocity :: real

datatype control_number = NullNumber | ControllerNumber nat | Subtype string

record Control = chan_element +
  number :: control_number
  value' :: real

record Header =
  name :: "string option"
  bpm :: real
  timeSignature :: "nat \<times> nat"
  PPQ :: nat

record Track =
  id' :: "nat option"
  name :: "string option"
  channelNumber :: int
  instrumentNumber :: int
  notes' :: "Note list"
  controlChanges :: "(control_number \<times> Control list) list"
  midiType :: "nat option"

text \<open>The token stream of the external byte-codec (midi-file-parser).\<close>

datatype event_body =
    NoteOn nat nat nat
  | NoteOff nat nat nat
  | Controller nat nat nat
  | ProgramChange nat nat
  | PitchBend nat nat
  | ChannelOther string nat
  | TrackName string
  | InstrumentName string
  | SetTempo nat
  | MetaOther string
  | SysEx

record event =
  deltaTime :: nat
  body :: event_body

record FileHeader =
  formatType :: nat
  trackCount :: nat
  ticksPerBeat :: nat

record MidiData =
  header :: FileHeader
  tracks :: "event list list"

record Midi =
  header :: Header
  tracks :: "Track list"

text \<open>The constructor of \<open>Midi\<close>, with the defaults of the source.\<close>

definition Midi_new :: Midi where
  "Midi_new = \<lparr>header = \<lparr>Header.name = None, bpm = 120, timeSignature = (4, 4), PPQ = 480\<rparr>,
               tracks = []\<rparr>"

text \<open>
  Modelled from the spec: the constructor of \<open>Control\<close> (\<open>Control.js\<close> is absent).
  \<open>new Control(number, time, value)\<close>, as \<open>decode\<close> builds a tempo breakpoint, and
  with the channel and instrument \<open>Track.cc\<close> passes on; \<open>-1\<close> is the unset value
  the splitter tests for.
\<close>

definition Control_new :: "control_number \<Rightarrow> real \<Rightarrow> real \<Rightarrow> int \<Rightarrow> int \<Rightarrow> Control" where
  "Control_new num t v ch inst =
     \<lparr>time = t, duration = None, channel = ch, instrument = inst, number = num, value' = v\<rparr>"

section \<open>Tempo warp: \<open>applyTempoChanges\<close>\<close>

record warp_state =
  oldTime :: real
  newTime :: real
  index :: nat
  speed :: real

text \<open>
  The inner \<open>while\<close> loop: \<open>changes[index + 1]\<close> is truthy exactly when the index is
  in range (every entry is an object).
\<close>

function nextControl :: "Control list \<Rightarrow> real \<Rightarrow> real \<Rightarrow> warp_state \<Rightarrow> warp_state" where
  "nextControl changes bpm' t s =
     (if index s + 1 < length changes \<and> time (changes ! (index s + 1)) \<le> t
      then nextControl changes bpm' t
             \<lparr>oldTime = time (changes ! (index s + 1)),
              newTime = newTime s + (time (changes ! (index s + 1)) - oldTime s) * speed s,
              index = index s + 1,
              speed = bpm' / value' (changes ! (index s + 1))\<rparr>
      else s)"
  by pat_completeness auto
termination
  by (relation "measure (\<lambda>(changes, bpm', t, s). length changes - index s)") auto

declare nextControl.simps [simp del]

text \<open>
  The body of \<open>elements.forEach\<close>. Reading \<open>changes[index].time\<close> with the index out
  of range would throw a \<open>TypeError\<close>; the model returns it as a value.
\<close>

definition applyTempoElement ::
  "Control list \<Rightarrow> real \<Rightarrow> warp_state \<Rightarrow> 'a element_scheme
     \<Rightarrow> js_error + (warp_state \<times> 'a element_scheme)" where
  "applyTempoElement changes bpm' s e =
     (if index s < length changes then
        (if time e < time (changes ! index s) then Inr (s, e)
         else
           let s1 = s\<lparr>oldTime := time (changes ! index s),
                      speed := bpm' / value' (changes ! index s)\<rparr>;
               s2 = nextControl changes bpm' (time e) s1;
               e1 = e\<lparr>time := (time e - oldTime s2) * speed s2 + newTime s2\<rparr>;
               e2 = (case duration e1 of
                       None \<Rightarrow> e1
                     | Some d \<Rightarrow> e1\<lparr>duration := Some (d * speed s2)\<rparr>)
           in Inr (s2, e2))
      else Inl TypeError)"

fun applyTempoLoop ::
  "Control list \<Rightarrow> real \<Rightarrow> warp_state \<Rightarrow> 'a element_scheme list
     \<Rightarrow> js_error + 'a element_scheme list" where
  "applyTempoLoop changes bpm' s [] = Inr []"
| "applyTempoLoop changes bpm' s (e # es) =
     (case applyTempoElement changes bpm' s e of
        Inl err \<Rightarrow> Inl err
      | Inr (s', e') \<Rightarrow>
          (case applyTempoLoop changes bpm' s' es of
             Inl err \<Rightarrow> Inl err
           | Inr es' \<Rightarrow> Inr (e' # es')))"

definition applyTempo ::
  "Control list \<Rightarrow> real \<Rightarrow> 'a element_scheme list \<Rightarrow> js_error + 'a element_scheme list" where
  "applyTempo changes bpm' elements =
     (if elements = [] then Inr []
      else applyTempoLoop changes bpm' \<lparr>oldTime = 0, newTime = 0, index = 0, speed = 1\<rparr> elements)"

text \<open>
  \<open>Object.keys(track.controlChanges).forEach\<close>: every controller's list is warped
  in turn, each with a scan state of its own; the keys and their order stay.
\<close>

fun applyTempoControls ::
  "Control list \<Rightarrow> real \<Rightarrow> (control_number \<times> Control list) list
     \<Rightarrow> js_error + (control_number \<times> Control list) list" where
  "applyTempoControls changes bpm' [] = Inr []"
| "applyTempoControls changes bpm' ((k, ccs) # rest) =
     (case applyTempo changes bpm' ccs of
        Inl err \<Rightarrow> Inl err
      | Inr ccs' \<Rightarrow>
          (case applyTempoControls changes bpm' rest of
             Inl err \<Rightarrow> Inl err
           | Inr rest' \<Rightarrow> Inr ((k, ccs') # rest')))"

definition applyTempoTrack :: "Control list \<Rightarrow> real \<Rightarrow> Track \<Rightarrow> js_error + Track" where
  "applyTempoTrack changes bpm' t =
     (case applyTempo changes bpm' (notes' t) of
        Inl err \<Rightarrow> Inl err
      | Inr ns \<Rightarrow>
          (case applyTempoControls changes bpm' (controlChanges t) of
             Inl err \<Rightarrow> Inl err
           | Inr ccs \<Rightarrow> Inr (t\<lparr>notes' := ns, controlChanges := ccs\<rparr>)))"

fun applyTempoTracks :: "Control list \<Rightarrow> real \<Rightarrow> Track list \<Rightarrow> js_error + Track list" where
  "applyTempoTracks changes bpm' [] = Inr []"
| "applyTempoTracks changes bpm' (t # ts) =
     (case applyTempoTrack changes bpm' t of
        Inl err \<Rightarrow> Inl err
      | Inr t' \<Rightarrow>
          (case applyTempoTracks changes bpm' ts of
             Inl err \<Rightarrow> Inl err
           | Inr ts' \<Rightarrow> Inr (t' # ts')))"

definition applyTempoChanges :: "Control list \<Rightarrow> real \<Rightarrow> Midi \<Rightarrow> js_error + Midi" where
  "applyTempoChanges changes bpm' this =
     (if length changes = 0 then Inr this
      else (case applyTempoTracks changes bpm' (tracks this) of
              Inl err \<Rightarrow> Inl err
            | Inr ts \<Rightarrow> Inr (this\<lparr>tracks := ts\<rparr>)))"

section \<open>Collaborators that are not part of \<open>Midi.js\<close>\<close>

text \<open>
  Modelled from the spec: \<open>Util.ticksToSeconds\<close> (\<open>Util.js\<close> is absent), section 4.1:
  \<open>deltaTicks / pulsesPerQuarter * (60 / beatsPerMinute)\<close>.
\<close>

definition ticksToSeconds :: "nat \<Rightarrow> Header \<Rightarrow> real" where
  "ticksToSeconds ticks hdr = real ticks / real (PPQ hdr) * (60 / bpm hdr)"

text \<open>
  Modelled from the spec: \<open>BinaryInsert\<close> (\<open>BinaryInsert.js\<close> is absent), section 4.2:
  a binary search over the sorted sequence for the rightmost position whose time is at
  most the new time, and insertion immediately after it. \<open>findPosition\<close> returns the
  index one past that position (0 when there is none).
\<close>

function findPosition :: "'a element_scheme list \<Rightarrow> real \<Rightarrow> nat \<Rightarrow> nat \<Rightarrow> nat" where
  "findPosition xs t lo hi =
     (if lo < hi then
        (if time (xs ! ((lo + hi) div 2)) \<le> t
         then findPosition xs t ((lo + hi) div 2 + 1) hi
         else findPosition xs t lo ((lo + hi) div 2))
      else lo)"
  by pat_completeness auto
termination
  by (relation "measure (\<lambda>(xs, t, lo, hi). hi - lo)") auto

declare findPosition.simps [simp del]

definition BinaryInsert :: "'a element_scheme list \<Rightarrow> 'a element_scheme \<Rightarrow> 'a element_scheme list" where
  "BinaryInsert array e =
     (let p = findPosition array (time e) 0 (length array)
      in take p array @ e # drop p array)"

text \<open>
  Modelled from the spec: the class \<open>Track\<close> (\<open>Track.js\<close> is absent), sections 3, 4.3
  and 4.6. The constructor takes name, instrument number and channel, as \<open>decode\<close>
  calls it; \<open>noteOn\<close> emits a note with its duration unset, \<open>noteOff\<close> closes the
  oldest pending note of the same pitch and channel and is ignored when there is none,
  \<open>cc\<close> emits a control change under its controller, \<open>patch\<close> sets the instrument
  number, \<open>scale\<close> stretches every time and duration. The table behind the
  \<open>instrument\<close> setter is the parameter \<open>instrumentByName\<close>; a name it does not know
  leaves the instrument number as it is.
\<close>

definition Track_new :: "string option \<Rightarrow> int \<Rightarrow> int \<Rightarrow> Track" where
  "Track_new nm inst ch =
     \<lparr>id' = None, name = nm, channelNumber = ch, instrumentNumber = inst,
      notes' = [], controlChanges = [], midiType = None\<rparr>"

definition noteOn :: "Track \<Rightarrow> nat \<Rightarrow> real \<Rightarrow> real \<Rightarrow> int \<Rightarrow> int \<Rightarrow> Track" where
  "noteOn t m tm vel ch inst =
     t\<lparr>notes' := notes' t @
          [\<lparr>time = tm, duration = None, channel = ch, instrument = inst,
            midi = m, velocity = vel\<rparr>]\<rparr>"

fun closeNote :: "Note list \<Rightarrow> nat \<Rightarrow> real \<Rightarrow> int \<Rightarrow> Note list" where
  "closeNote [] m tm ch = []"
| "closeNote (n # ns) m tm ch =
     (if midi n = m \<and> channel n = ch \<and> duration n = None
      then n\<lparr>duration := Some (tm - time n)\<rparr> # ns
      else n # closeNote ns m tm ch)"

definition noteOff :: "Track \<Rightarrow> nat \<Rightarrow> real \<Rightarrow> int \<Rightarrow> Track" where
  "noteOff t m tm ch = t\<lparr>notes' := closeNote (notes' t) m tm ch\<rparr>"

definition property :: "('k \<times> 'v list) list \<Rightarrow> 'k \<Rightarrow> 'v list" where
  "property obj k = (case map_of obj k of None \<Rightarrow> [] | Some vs \<Rightarrow> vs)"

definition cc :: "Track \<Rightarrow> control_number \<Rightarrow> real \<Rightarrow> real \<Rightarrow> int \<Rightarrow> int \<Rightarrow> Track" where
  "cc t num tm v ch inst =
     t\<lparr>controlChanges :=
          AList.update num (property (controlChanges t) num @ [Control_new num tm v ch inst])
            (controlChanges t)\<rparr>"

definition patch :: "Track \<Rightarrow> int \<Rightarrow> Track" where
  "patch t i = t\<lparr>instrumentNumber := i\<rparr>"

definition set_instrument :: "(string \<Rightarrow> nat option) \<Rightarrow> Track \<Rightarrow> string \<Rightarrow> Track" where
  "set_instrument instrumentByName t inst =
     (case instrumentByName inst of
        None \<Rightarrow> t
      | Some i \<Rightarrow> t\<lparr>instrumentNumber := int i\<rparr>)"

definition length' :: "Track \<Rightarrow> nat" where
  "length' t = length (notes' t) + sum_list (map (\<lambda>(k, ccs). length ccs) (controlChanges t))"

definition scale_element :: "real \<Rightarrow> 'a element_scheme \<Rightarrow> 'a element_scheme" where
  "scale_element amount e =
     e\<lparr>time := time e * amount, duration := map_option (\<lambda>d. d * amount) (duration e)\<rparr>"

definition scale :: "real \<Rightarrow> Track \<Rightarrow> Track" where
  "scale amount t =
     t\<lparr>notes' := map (scale_element amount) (notes' t),
       controlChanges := map (\<lambda>(k, ccs). (k, map (scale_element amount) ccs)) (controlChanges t)\<rparr>"

section \<open>Event demuxer: the first loop of \<open>decode\<close>\<close>

text \<open>The \<open>channel\<close> property of a token: present on channel events only.\<close>

fun event_channel :: "event_body \<Rightarrow> nat option" where
  "event_channel (NoteOn ch noteNumber vel) = Some ch"
| "event_channel (NoteOff ch noteNumber vel) = Some ch"
| "event_channel (Controller ch controllerType v) = Some ch"
| "event_channel (ProgramChange ch programNumber) = Some ch"
| "event_channel (PitchBend ch v) = Some ch"
| "event_channel (ChannelOther subtype ch) = Some ch"
| "event_channel (TrackName txt) = None"
| "event_channel (InstrumentName txt) = None"
| "event_channel (SetTempo microsecondsPerBeat) = None"
| "event_channel (MetaOther subtype) = None"
| "event_channel SysEx = None"

text \<open>
  The variables of \<open>decode\<close>: \<open>tempoChanges\<close> and \<open>channelInstruments\<close> live across
  all raw tracks, the others are set up anew for each raw track.
\<close>

record decode_state =
  tempoChanges :: "Control list"
  channelInstruments :: "int \<Rightarrow> int option"
  track :: Track
  channel' :: int
  instrument' :: int
  absoluteTime :: real
  channelCC :: "nat \<Rightarrow> (nat \<Rightarrow> nat option) option"
  channelPitchBendRange :: "nat \<Rightarrow> nat option"

text \<open>
  \<open>if (event.channel && track.channelNumber === -1)\<close>: a channel of 0 is falsy, as is
  a missing one.
\<close>

definition assignChannel :: "decode_state \<Rightarrow> event_body \<Rightarrow> decode_state" where
  "assignChannel s b =
     (case event_channel b of
        None \<Rightarrow> s
      | Some ch \<Rightarrow>
          if ch \<noteq> 0 \<and> channelNumber (track s) = -1
          then s\<lparr>track := (track s)\<lparr>channelNumber := int ch\<rparr>\<rparr>
          else s)"

text \<open>Keep track of the current channel ControlChange (lines 112 to 117).\<close>

fun recordControlChange :: "decode_state \<Rightarrow> event_body \<Rightarrow> decode_state" where
  "recordControlChange s (Controller ch controllerType v) =
     (if controllerType \<noteq> 0
      then s\<lparr>channelCC := (channelCC s)
               (ch := Some ((case channelCC s ch of None \<Rightarrow> (\<lambda>k. None) | Some m \<Rightarrow> m)
                              (controllerType := Some v)))\<rparr>
      else s)"
| "recordControlChange s b = s"

definition channelInstrument :: "decode_state \<Rightarrow> int \<Rightarrow> int" where
  "channelInstrument s ch = (case channelInstruments s ch of None \<Rightarrow> -1 | Some i \<Rightarrow> i)"

definition pitchBendRangeChange :: "decode_state \<Rightarrow> nat \<Rightarrow> nat \<Rightarrow> bool" where
  "pitchBendRangeChange s ch controllerType =
     (controllerType = 6 \<and>
      (case channelCC s ch of
         None \<Rightarrow> False
       | Some m \<Rightarrow> (m 100 = None \<or> m 100 = Some 0) \<and> m 101 = Some 0))"

text \<open>The chain of \<open>if\<close> / \<open>else if\<close> on the token kind (lines 119 to 166).\<close>

fun dispatch ::
  "(string \<Rightarrow> string) \<Rightarrow> (string \<Rightarrow> nat option) \<Rightarrow> decode_state \<Rightarrow> event_body \<Rightarrow> decode_state" where
  "dispatch cleanName instrumentByName s (TrackName txt) =
     s\<lparr>track := (track s)\<lparr>name := Some (cleanName txt)\<rparr>\<rparr>"
| "dispatch cleanName instrumentByName s (NoteOn ch noteNumber vel) =
     (let t1 = (if channelNumber (track s) = -1
                then (track s)\<lparr>channelNumber := int ch\<rparr> else track s);
          inst = channelInstrument s (int ch)
      in s\<lparr>track := noteOn t1 noteNumber (absoluteTime s) (real vel / 127) (int ch) inst,
           channel' := int ch, instrument' := inst\<rparr>)"
| "dispatch cleanName instrumentByName s (NoteOff ch noteNumber vel) =
     s\<lparr>track := noteOff (track s) noteNumber (absoluteTime s) (int ch)\<rparr>"
| "dispatch cleanName instrumentByName s (Controller ch controllerType v) =
     (if controllerType \<noteq> 0 then
        (let inst = channelInstrument s (int ch);
             s1 = s\<lparr>track := cc (track s) (ControllerNumber controllerType) (absoluteTime s)
                                (real v / 127) (int ch) inst,
                    channel' := int ch, instrument' := inst\<rparr>
         in if pitchBendRangeChange s1 ch controllerType
            then s1\<lparr>channelPitchBendRange := (channelPitchBendRange s1)(ch := Some v)\<rparr>
            else s1)
      else s)"
| "dispatch cleanName instrumentByName s (InstrumentName txt) =
     (let instrumentTrack =
            set_instrument instrumentByName
              ((Track_new None (-1) (-1))\<lparr>channelNumber := channel' s\<rparr>) txt;
          inst = instrumentNumber instrumentTrack;
          t1 = (if instrumentNumber (track s) = -1 then patch (track s) inst else track s)
      in s\<lparr>track := t1, instrument' := inst,
           channelInstruments := (channelInstruments s)(channel' s := Some inst)\<rparr>)"
| "dispatch cleanName instrumentByName s (SetTempo microsecondsPerBeat) =
     (let newBpm = 60 / (real microsecondsPerBeat / 1000000);
          st = Control_new NullNumber (absoluteTime s) newBpm (-1) (-1)
      in s\<lparr>tempoChanges := BinaryInsert (tempoChanges s) st\<rparr>)"
| "dispatch cleanName instrumentByName s (ProgramChange ch programNumber) =
     (let t1 = (if instrumentNumber (track s) = -1
                then patch (track s) (int programNumber) else track s)
      in s\<lparr>track := t1, instrument' := int programNumber, channel' := int ch,
           channelInstruments := (channelInstruments s)(int ch := Some (int programNumber))\<rparr>)"
| "dispatch cleanName instrumentByName s (PitchBend ch v) =
     (let pitchBendRange =
            (case channelPitchBendRange s ch of
               None \<Rightarrow> 2
             | Some r \<Rightarrow> if r = 0 then 2 else r);
          pitchBendValue = real pitchBendRange * (real v - 8192) / 8192;
          inst = channelInstrument s (int ch)
      in s\<lparr>track := cc (track s) (Subtype ''pitchBend'') (absoluteTime s) pitchBendValue
                        (int ch) inst,
           channel' := int ch, instrument' := inst\<rparr>)"
| "dispatch cleanName instrumentByName s (ChannelOther subtype ch) = s"
| "dispatch cleanName instrumentByName s (MetaOther subtype) = s"
| "dispatch cleanName instrumentByName s SysEx = s"

definition onEvent ::
  "(string \<Rightarrow> string) \<Rightarrow> (string \<Rightarrow> nat option) \<Rightarrow> Header \<Rightarrow> decode_state \<Rightarrow> event
     \<Rightarrow> decode_state" where
  "onEvent cleanName instrumentByName hdr s ev =
     (let s1 = s\<lparr>absoluteTime := absoluteTime s + ticksToSeconds (deltaTime ev) hdr\<rparr>;
          s2 = assignChannel s1 (body ev);
          s3 = recordControlChange s2 (body ev)
      in dispatch cleanName instrumentByName s3 (body ev))"

text \<open>One raw track: a new \<open>Track\<close>, fresh loop variables, then every token in order.\<close>

definition demuxTrack ::
  "(string \<Rightarrow> string) \<Rightarrow> (string \<Rightarrow> nat option) \<Rightarrow> Header \<Rightarrow> decode_state \<Rightarrow> event list
     \<Rightarrow> decode_state" where
  "demuxTrack cleanName instrumentByName hdr s trackData =
     foldl (onEvent cleanName instrumentByName hdr)
       (s\<lparr>track := Track_new None (-1) (-1), channel' := -1, instrument' := -1,
          absoluteTime := 0, channelCC := (\<lambda>ch. None),
          channelPitchBendRange := (\<lambda>ch. None)\<rparr>)
       trackData"

text \<open>
  \<open>if (!this.header.name && !track.length && track.name)\<close>: an empty string is falsy
  like a missing one.
\<close>

definition adoptName :: "Header \<Rightarrow> Track \<Rightarrow> Header" where
  "adoptName hdr t =
     (if (Header.name hdr = None \<or> Header.name hdr = Some []) \<and> length' t = 0
         \<and> name t \<noteq> None \<and> name t \<noteq> Some []
      then hdr\<lparr>Header.name := name t\<rparr> else hdr)"

text \<open>
  \<open>midiData.tracks.forEach\<close>: the header, the raw tracks pushed so far, and the loop
  variables.
\<close>

fun demux ::
  "(string \<Rightarrow> string) \<Rightarrow> (string \<Rightarrow> nat option) \<Rightarrow> Header \<times> Track list \<times> decode_state
     \<Rightarrow> event list list \<Rightarrow> Header \<times> Track list \<times> decode_state" where
  "demux cleanName instrumentByName (hdr, raw, s) [] = (hdr, raw, s)"
| "demux cleanName instrumentByName (hdr, raw, s) (trackData # rest) =
     (let s' = demuxTrack cleanName instrumentByName hdr s trackData
      in demux cleanName instrumentByName (adoptName hdr (track s'), raw @ [track s'], s') rest)"

definition initial_state :: decode_state where
  "initial_state =
     \<lparr>tempoChanges = [], channelInstruments = (\<lambda>ch. None),
      track = Track_new None (-1) (-1), channel' = -1, instrument' = -1, absoluteTime = 0,
      channelCC = (\<lambda>ch. None), channelPitchBendRange = (\<lambda>ch. None)\<rparr>"


section \<open>Channel and instrument splitter: the second loop of \<open>decode\<close>\<close>

text \<open>
  \<open>subTracks\<close> is a JavaScript array of arrays, written to at the keys \<open>channel\<close> and
  \<open>instrument\<close>. It is modelled as an association list from keys to values.
  \<open>forEach\<close> visits the array indices in ascending order; a key that is not an array
  index, such as \<open>-1\<close>, is a plain property and is not visited.
\<close>

type_synonym 'a js_array = "(int \<times> 'a) list"

definition forEach_order :: "'a js_array \<Rightarrow> 'a list" where
  "forEach_order a = map snd (sort_key fst (filter (\<lambda>(k, v). 0 \<le> k) a))"

text \<open>
  \<open>getSubtrack\<close> creates the row and the track when they are missing and returns the
  track; the caller changes the track it was handed, which \<open>setSubtrack\<close> writes back.
\<close>

definition getSubtrack ::
  "nat \<Rightarrow> Track \<Rightarrow> Track js_array js_array \<Rightarrow> int \<Rightarrow> int \<Rightarrow> Track js_array js_array \<times> Track" where
  "getSubtrack fmt mixedTrack subTracks ch inst =
     (case map_of (property subTracks ch) inst of
        Some t \<Rightarrow> (subTracks, t)
      | None \<Rightarrow>
          (let t = (Track_new (name mixedTrack) inst ch)\<lparr>midiType := Some fmt\<rparr>
           in (AList.update ch (AList.update inst t (property subTracks ch)) subTracks, t)))"

definition setSubtrack ::
  "Track js_array js_array \<Rightarrow> int \<Rightarrow> int \<Rightarrow> Track \<Rightarrow> Track js_array js_array" where
  "setSubtrack subTracks ch inst t =
     AList.update ch (AList.update inst t (property subTracks ch)) subTracks"

text \<open>The sentinel checks on a note or control change (lines 195 to 203, 210 to 219).\<close>

definition resolve :: "Track \<Rightarrow> 'a chan_element_scheme \<Rightarrow> 'a chan_element_scheme" where
  "resolve mixedTrack e =
     (let e1 = (if channel e = -1 then e\<lparr>channel := channelNumber mixedTrack\<rparr> else e)
      in if instrument e1 = -1
         then (let e2 = e1\<lparr>instrument := instrumentNumber mixedTrack\<rparr>
               in if instrument e2 = -1 then e2\<lparr>instrument := 0\<rparr> else e2)
         else e1)"

definition addNote :: "nat \<Rightarrow> Track \<Rightarrow> Track js_array js_array \<Rightarrow> Note \<Rightarrow> Track js_array js_array" where
  "addNote fmt mixedTrack subTracks n0 =
     (let n = resolve mixedTrack n0;
          (st, sub) = getSubtrack fmt mixedTrack subTracks (channel n) (instrument n)
      in setSubtrack st (channel n) (instrument n) (sub\<lparr>notes' := notes' sub @ [n]\<rparr>))"

definition addControl ::
  "nat \<Rightarrow> Track \<Rightarrow> control_number \<Rightarrow> Track js_array js_array \<Rightarrow> Control
     \<Rightarrow> Track js_array js_array" where
  "addControl fmt mixedTrack controlType subTracks c0 =
     (let c = resolve mixedTrack c0;
          (st, sub) = getSubtrack fmt mixedTrack subTracks (channel c) (instrument c);
          trackCc = controlChanges sub
      in setSubtrack st (channel c) (instrument c)
           (sub\<lparr>controlChanges :=
                  AList.update controlType (property trackCc controlType @ [c]) trackCc\<rparr>))"

text \<open>
  \<open>Object.keys\<close>: the keys that are array indices in ascending order, then the other
  keys in the order they were created.
\<close>

definition objectKeys :: "(control_number \<times> 'v) list \<Rightarrow> control_number list" where
  "objectKeys obj =
     map ControllerNumber (sort [n. (ControllerNumber n, v) \<leftarrow> obj]) @
     [k. (k, v) \<leftarrow> obj, (case k of ControllerNumber n \<Rightarrow> False | _ \<Rightarrow> True)]"

definition addControls :: "nat \<Rightarrow> Track \<Rightarrow> Track js_array js_array \<Rightarrow> Track js_array js_array" where
  "addControls fmt mixedTrack subTracks =
     foldl (\<lambda>st controlType.
              foldl (addControl fmt mixedTrack controlType) st
                (property (controlChanges mixedTrack) controlType))
       subTracks (objectKeys (controlChanges mixedTrack))"

definition buildSubTracks :: "nat \<Rightarrow> Track \<Rightarrow> Track js_array js_array" where
  "buildSubTracks fmt mixedTrack =
     addControls fmt mixedTrack (foldl (addNote fmt mixedTrack) [] (notes' mixedTrack))"

fun insertSubTracks :: "Track list \<times> nat \<Rightarrow> Track list \<Rightarrow> Track list \<times> nat" where
  "insertSubTracks (out, trackId) [] = (out, trackId)"
| "insertSubTracks (out, trackId) (t # ts) =
     insertSubTracks (out @ [t\<lparr>id' := Some trackId\<rparr>], trackId + 1) ts"

definition splitTrack :: "nat \<Rightarrow> Track list \<times> nat \<Rightarrow> Track \<Rightarrow> Track list \<times> nat" where
  "splitTrack fmt acc mixedTrack =
     insertSubTracks acc
       (concat (map forEach_order (forEach_order (buildSubTracks fmt mixedTrack))))"

definition splitTracks :: "nat \<Rightarrow> Track list \<Rightarrow> Track list" where
  "splitTracks fmt raw = fst (foldl (splitTrack fmt) ([], 0) raw)"

section \<open>\<open>decode\<close>, \<open>set bpm\<close>, \<open>toJSON\<close> and \<open>load\<close>\<close>

text \<open>
  \<open>decode\<close> after the byte-codec has tokenized the bytes. \<open>parseHeader\<close>
  (\<open>Header.js\<close>), \<open>Util.cleanName\<close> and the instrument table are not part of
  \<open>Midi.js\<close> and are parameters. The header and the tracks \<open>this\<close> held before are
  replaced, so the result does not depend on them.
\<close>

definition decodeTokens ::
  "(MidiData \<Rightarrow> Header) \<Rightarrow> (string \<Rightarrow> string) \<Rightarrow> (string \<Rightarrow> nat option) \<Rightarrow> MidiData
     \<Rightarrow> js_error + Midi" where
  "decodeTokens parseHeader cleanName instrumentByName midiData =
     (let (hdr, raw, s) =
            demux cleanName instrumentByName (parseHeader midiData, [], initial_state)
              (MidiData.tracks midiData);
          this = \<lparr>header = hdr,
                  tracks = splitTracks (formatType (MidiData.header midiData)) raw\<rparr>
      in applyTempoChanges (tempoChanges s) (bpm hdr) this)"

text \<open>The byte-codec \<open>Decoder\<close> is an external module; it returns the tokens or throws.\<close>

definition decode ::
  "(string \<Rightarrow> string + MidiData) \<Rightarrow> (MidiData \<Rightarrow> Header) \<Rightarrow> (string \<Rightarrow> string)
     \<Rightarrow> (string \<Rightarrow> nat option) \<Rightarrow> string \<Rightarrow> js_error + Midi" where
  "decode Decoder parseHeader cleanName instrumentByName bytes =
     (case Decoder bytes of
        Inl msg \<Rightarrow> Inl (DecoderError msg)
      | Inr midiData \<Rightarrow> decodeTokens parseHeader cleanName instrumentByName midiData)"

definition set_bpm :: "real \<Rightarrow> Midi \<Rightarrow> Midi" where
  "set_bpm b this =
     (let prevTempo = bpm (header this);
          ratio = prevTempo / b
      in this\<lparr>header := (header this)\<lparr>bpm := b\<rparr>, tracks := map (scale ratio) (tracks this)\<rparr>)"

text \<open>
  The getters \<open>startTime\<close> and \<open>duration\<close>, over the parameters \<open>Track.startTime\<close>
  and \<open>Track.duration\<close>.
\<close>

definition startTime :: "(Track \<Rightarrow> real) \<Rightarrow> Midi \<Rightarrow> real" where
  "startTime trackStartTime this =
     (let startTimes = map trackStartTime (tracks this)
      in if startTimes = [] then 0 else Min (set startTimes))"

definition duration' :: "(Track \<Rightarrow> real) \<Rightarrow> Midi \<Rightarrow> real" where
  "duration' trackDuration this =
     (let durations = map trackDuration (tracks this)
      in if durations = [] then 0 else Max (set durations))"

record 'j MidiJSON =
  json_header :: Header
  json_startTime :: real
  json_duration :: real
  json_tracks :: "'j list"

text \<open>
  \<open>toJSON\<close> returns the record and the Midi as the call leaves it: \<open>ret.header\<close> is
  the object \<open>this.header\<close> itself, so the assignment to \<open>ret.header.name\<close> writes
  to the header of the Midi. \<open>Track.toJSON\<close> is a parameter.
\<close>

definition toJSON ::
  "(Track \<Rightarrow> 'j) \<Rightarrow> (Track \<Rightarrow> real) \<Rightarrow> (Track \<Rightarrow> real) \<Rightarrow> Midi \<Rightarrow> 'j MidiJSON \<times> Midi" where
  "toJSON trackToJSON trackStartTime trackDuration this =
     (let hdr = (if Header.name (header this) = None \<or> Header.name (header this) = Some []
                 then (header this)\<lparr>Header.name := Some []\<rparr>
                 else header this)
      in (\<lparr>json_header = hdr,
           json_startTime = startTime trackStartTime this,
           json_duration = duration' trackDuration this,
           json_tracks = map trackToJSON (tracks this)\<rparr>,
          this\<lparr>header := hdr\<rparr>))"

text \<open>
  \<open>load\<close>. The request ends with a \<open>load\<close> event (ready state, status, response) or
  an \<open>error\<close> event. \<open>fail\<close> rejects the inner promise; an exception of \<open>decode\<close>
  leaves the listener without \<open>success\<close> or \<open>fail\<close> being called, so the promise
  stays pending. The handler given to \<open>catch\<close> logs the reason and returns nothing,
  so the promise \<open>load\<close> returns is then resolved with \<open>undefined\<close> (\<open>None\<close>).
\<close>

datatype xhr_event = LoadEvent nat nat string | ErrorEvent

datatype reason = Status nat | ErrorEventObject

datatype 'a promise = Pending | Resolved 'a | Rejected reason

definition executor :: "(string \<Rightarrow> js_error + Midi) \<Rightarrow> xhr_event \<Rightarrow> Midi promise" where
  "executor decodeBytes ev =
     (case ev of
        LoadEvent readyState status response \<Rightarrow>
          if readyState = 4 \<and> status = 200
          then (case decodeBytes response of
                  Inr this \<Rightarrow> Resolved this
                | Inl err \<Rightarrow> Pending)
          else Rejected (Status status)
      | ErrorEvent \<Rightarrow> Rejected ErrorEventObject)"

definition catch_log :: "'a promise \<Rightarrow> 'a option promise \<times> reason list" where
  "catch_log p =
     (case p of
        Pending \<Rightarrow> (Pending, [])
      | Resolved v \<Rightarrow> (Resolved (Some v), [])
      | Rejected r \<Rightarrow> (Resolved None, [r]))"

definition load :: "(string \<Rightarrow> js_error + Midi) \<Rightarrow> xhr_event \<Rightarrow> Midi option promise \<times> reason list" where
  "load decodeBytes ev = catch_log (executor decodeBytes ev)"


section \<open>Observations and the concrete scenario of the specification\<close>

text \<open>
  What the tempo warp may not touch: an element with its time zeroed and its duration,
  when it has one, zeroed; a track with every element so erased.
\<close>

definition untimed :: "'a element_scheme \<Rightarrow> 'a element_scheme" where
  "untimed e = e\<lparr>time := 0, duration := map_option (\<lambda>d. 0) (duration e)\<rparr>"

definition untimedTrack :: "Track \<Rightarrow> Track" where
  "untimedTrack t =
     t\<lparr>notes' := map untimed (notes' t),
       controlChanges := map (\<lambda>(k, ccs). (k, map untimed ccs)) (controlChanges t)\<rparr>"

definition note_timings :: "Midi \<Rightarrow> (real \<times> real option) list list" where
  "note_timings this = map (\<lambda>t. map (\<lambda>n. (time n, duration n)) (notes' t)) (tracks this)"

definition note_durations :: "Midi \<Rightarrow> real option list list" where
  "note_durations this = map (\<lambda>t. map duration (notes' t)) (tracks this)"

text \<open>
  The two-track stream of section 8: PPQ 480, reference tempo 120, a set-tempo to 60 BPM
  (1000000 microseconds per beat) at tick 480 in track 0, and in track 1 a note-on at
  tick 960 with its note-off 480 ticks later. \<open>scenario_changes\<close> and \<open>scenario_midi\<close>
  are the breakpoints and the Midi that \<open>decode\<close> hands to \<open>applyTempoChanges\<close> for
  this stream (lemma \<open>scenario_decode\<close>).
\<close>

definition scenario_header :: Header where
  "scenario_header = \<lparr>Header.name = None, bpm = 120, timeSignature = (4, 4), PPQ = 480\<rparr>"

definition scenario_tokens :: MidiData where
  "scenario_tokens =
     \<lparr>MidiData.header = \<lparr>formatType = 1, trackCount = 2, ticksPerBeat = 480\<rparr>,
      MidiData.tracks =
        [[\<lparr>deltaTime = 480, body = SetTempo 1000000\<rparr>],
         [\<lparr>deltaTime = 960, body = NoteOn 0 60 127\<rparr>,
          \<lparr>deltaTime = 480, body = NoteOff 0 60 0\<rparr>]]\<rparr>"

definition scenario_changes :: "Control list" where
  "scenario_changes =
     [Control_new NullNumber (ticksToSeconds 480 scenario_header) (60 / (1000000 / 1000000))
        (-1) (-1)]"

definition scenario_note :: Note where
  "scenario_note =
     \<lparr>time = ticksToSeconds 960 scenario_header,
      duration = Some (ticksToSeconds 480 scenario_header),
      channel = 0, instrument = 0, midi = 60, velocity = 1\<rparr>"

definition scenario_track :: "Note \<Rightarrow> Track" where
  "scenario_track n =
     \<lparr>id' = Some 0, name = None, channelNumber = 0, instrumentNumber = 0,
      notes' = [n], controlChanges = [], midiType = Some 1\<rparr>"

definition scenario_midi :: "Note \<Rightarrow> Midi" where
  "scenario_midi n = \<lparr>header = scenario_header, tracks = [scenario_track n]\<rparr>"

section \<open>Notions used in the statements about the demuxer and the splitter\<close>

text \<open>
  \<open>subTracks[channel][instrument]\<close>; the track \<open>getSubtrack\<close> creates when there is
  none; the track it returns.
\<close>

definition subtrackAt :: "Track js_array js_array \<Rightarrow> int \<Rightarrow> int \<Rightarrow> Track option" where
  "subtrackAt subTracks ch inst = map_of (property subTracks ch) inst"

definition newSubtrack :: "nat \<Rightarrow> Track \<Rightarrow> int \<Rightarrow> int \<Rightarrow> Track" where
  "newSubtrack fmt mixedTrack ch inst = (Track_new (name mixedTrack) inst ch)\<lparr>midiType := Some fmt\<rparr>"

definition present :: "nat \<Rightarrow> Track \<Rightarrow> Track js_array js_array \<Rightarrow> int \<Rightarrow> int \<Rightarrow> Track" where
  "present fmt mt st ch inst =
     (case subtrackAt st ch inst of Some t \<Rightarrow> t | None \<Rightarrow> newSubtrack fmt mt ch inst)"

text \<open>
  The notes of a list of tracks, track by track, and their total number; the notes of
  raw tracks as the splitter resolves them; a note with its instrument blanked.
\<close>

definition allNotes :: "Track list \<Rightarrow> Note list" where
  "allNotes ts = concat (map notes' ts)"

definition noteCount :: "Track list \<Rightarrow> nat" where
  "noteCount ts = sum_list (map (\<lambda>t. length (notes' t)) ts)"

definition resolvedNotes :: "Track list \<Rightarrow> Note list" where
  "resolvedNotes raw = concat (map (\<lambda>mixedTrack. map (resolve mixedTrack) (notes' mixedTrack)) raw)"

definition sansInstrument :: "Note \<Rightarrow> Note" where
  "sansInstrument n = n\<lparr>instrument := 0\<rparr>"

text \<open>
  The notes \<open>forEach\<close> will reach in \<open>subTracks\<close>, as a multiset: those of the tracks
  under array indices.
\<close>

definition weight :: "int \<Rightarrow> 'a::zero \<Rightarrow> 'a" where
  "weight k n = (if 0 \<le> k then n else 0)"

definition rowNotes :: "Track js_array \<Rightarrow> Note multiset" where
  "rowNotes row = sum_list (map (\<lambda>(i, t). weight i (mset (notes' t))) row)"

definition gridNotes :: "Track js_array js_array \<Rightarrow> Note multiset" where
  "gridNotes st = sum_list (map (\<lambda>(c, row). weight c (rowNotes row)) st)"

text \<open>The raw tracks the first loop of \<open>decode\<close> hands to the second.\<close>

definition rawTracks ::
  "(string \<Rightarrow> string) \<Rightarrow> (string \<Rightarrow> nat option) \<Rightarrow> Header \<Rightarrow> event list list \<Rightarrow> Track list" where
  "rawTracks cleanName instrumentByName hdr trackDatas =
     fst (snd (demux cleanName instrumentByName (hdr, [], initial_state) trackDatas))"

text \<open>
  What the demuxer keeps true of a raw track: every note carries the channel of its
  note-on token, and instrument numbers are program numbers or \<open>-1\<close>.
\<close>

definition wf_track :: "Track \<Rightarrow> bool" where
  "wf_track t \<longleftrightarrow>
     (\<forall>n \<in> set (notes' t). 0 \<le> channel n \<and> -1 \<le> instrument n) \<and> -1 \<le> instrumentNumber t"

definition wf_state :: "decode_state \<Rightarrow> bool" where
  "wf_state s \<longleftrightarrow>
     wf_track (track s) \<and> (\<forall>ch i. channelInstruments s ch = Some i \<longrightarrow> -1 \<le> i)"

text \<open>
  Every sub track sits under its own channel and instrument; a note, or a control change
  under a controller, is held by the sub track under its channel and instrument.
\<close>

definition keyed :: "Track js_array js_array \<Rightarrow> bool" where
  "keyed st \<longleftrightarrow>
     (\<forall>c i t. subtrackAt st c i = Some t \<longrightarrow> channelNumber t = c \<and> instrumentNumber t = i)"

definition holdsNote :: "Track js_array js_array \<Rightarrow> Note \<Rightarrow> bool" where
  "holdsNote st n \<longleftrightarrow>
     (\<exists>t. subtrackAt st (channel n) (instrument n) = Some t \<and> n \<in> set (notes' t))"

definition holdsControl :: "Track js_array js_array \<Rightarrow> control_number \<Rightarrow> Control \<Rightarrow> bool" where
  "holdsControl st k c \<longleftrightarrow>
     (\<exists>t. subtrackAt st (channel c) (instrument c) = Some t
          \<and> c \<in> set (property (controlChanges t) k))"

text \<open>Sample values: a tempo breakpoint, and a mixed track with one note and one control.\<close>

definition breakpoint :: "real \<Rightarrow> real \<Rightarrow> Control" where
  "breakpoint t v = Control_new NullNumber t v (-1) (-1)"

definition example_note :: Note where
  "example_note =
     \<lparr>time = 0, duration = Some 1, channel = -1, instrument = -1, midi = 60, velocity = 1\<rparr>"

definition example_control :: Control where
  "example_control = Control_new (ControllerNumber 7) 0 (1 / 2) 3 5"

definition example_mixedTrack :: Track where
  "example_mixedTrack =
     \<lparr>id' = None, name = Some ''Piano'', channelNumber = 2, instrumentNumber = -1,
      notes' = [example_note], controlChanges = [(ControllerNumber 7, [example_control])],
      midiType = None\<rparr>"

section \<open>Properties of the tempo warp\<close>

text \<open>
  Claim C9. With an empty breakpoint sequence \<open>applyTempoChanges\<close> returns the Midi it
  was given, for every Midi and every reference bpm: no note or control-change time and
  no duration is touched.
\<close>

theorem applyTempoChanges_no_changes:
  "applyTempoChanges [] bpm' this = Inr this"
  by (simp add: applyTempoChanges_def)

subsection \<open>Evaluation rules for the two searches\<close>

lemma nextControl_stop:
  "\<not> (index s + 1 < length changes \<and> time (changes ! (index s + 1)) \<le> t)
     \<Longrightarrow> nextControl changes b t s = s"
  by (subst nextControl.simps) auto

lemma nextControl_step:
  "index s + 1 < length changes \<Longrightarrow> time (changes ! (index s + 1)) \<le> t
     \<Longrightarrow> nextControl changes b t s =
         nextControl changes b t
           \<lparr>oldTime = time (changes ! (index s + 1)),
            newTime = newTime s + (time (changes ! (index s + 1)) - oldTime s) * speed s,
            index = index s + 1,
            speed = b / value' (changes ! (index s + 1))\<rparr>"
  by (subst nextControl.simps) simp

lemma findPosition_stop: "\<not> lo < hi \<Longrightarrow> findPosition xs t lo hi = lo"
  by (subst findPosition.simps) simp

lemma findPosition_right:
  "lo < hi \<Longrightarrow> time (xs ! ((lo + hi) div 2)) \<le> t
     \<Longrightarrow> findPosition xs t lo hi = findPosition xs t ((lo + hi) div 2 + 1) hi"
  by (subst findPosition.simps) simp

lemma findPosition_left:
  "lo < hi \<Longrightarrow> \<not> time (xs ! ((lo + hi) div 2)) \<le> t
     \<Longrightarrow> findPosition xs t lo hi = findPosition xs t lo ((lo + hi) div 2)"
  by (subst findPosition.simps) simp

lemmas findPosition_eval = findPosition_stop findPosition_right findPosition_left


subsection \<open>The frame of the tempo warp\<close>

lemma nextControl_index:
  "index s < length changes \<Longrightarrow> index (nextControl changes b t s) < length changes"
proof (induction changes b t s rule: nextControl.induct)
  case (1 changes b t s)
  show ?case
  proof (cases "index s + 1 < length changes \<and> time (changes ! (index s + 1)) \<le> t")
    case True
    then show ?thesis using "1.IH" by (subst nextControl.simps) simp
  next
    case False
    then show ?thesis using "1.prems" by (subst nextControl.simps) auto
  qed
qed

lemma applyTempoElement_frame:
  assumes "index s < length changes"
  shows "\<exists>s' e'. applyTempoElement changes b s e = Inr (s', e')
           \<and> index s' < length changes \<and> untimed e' = untimed e"
proof (cases "time e < time (changes ! index s)")
  case True
  then show ?thesis using assms by (simp add: applyTempoElement_def)
next
  case False
  let ?s1 = "s\<lparr>oldTime := time (changes ! index s), speed := b / value' (changes ! index s)\<rparr>"
  have "index (nextControl changes b (time e) ?s1) < length changes"
    using assms by (intro nextControl_index) simp
  then show ?thesis using assms False
    by (cases "duration e") (simp_all add: applyTempoElement_def Let_def untimed_def)
qed

lemma applyTempoLoop_frame:
  "index s < length changes \<Longrightarrow>
     \<exists>es'. applyTempoLoop changes b s es = Inr es' \<and> map untimed es' = map untimed es"
proof (induction es arbitrary: s)
  case Nil
  then show ?case by simp
next
  case (Cons e es)
  from applyTempoElement_frame [OF Cons.prems, of b e]
  obtain s' e' where step: "applyTempoElement changes b s e = Inr (s', e')"
    and idx: "index s' < length changes" and fr: "untimed e' = untimed e"
    by blast
  from Cons.IH [OF idx] obtain es' where
    rest: "applyTempoLoop changes b s' es = Inr es'" and frs: "map untimed es' = map untimed es"
    by blast
  show ?case using step rest fr frs by simp
qed

lemma applyTempo_frame:
  assumes "changes \<noteq> []"
  shows "\<exists>es'. applyTempo changes b es = Inr es' \<and> map untimed es' = map untimed es"
proof (cases "es = []")
  case True
  then show ?thesis by (simp add: applyTempo_def)
next
  case False
  have "index \<lparr>oldTime = 0, newTime = 0, index = 0, speed = 1\<rparr> < length changes"
    using assms by simp
  from applyTempoLoop_frame [OF this, of b es] show ?thesis
    using False by (simp add: applyTempo_def)
qed

lemma applyTempoControls_frame:
  assumes "changes \<noteq> []"
  shows "\<exists>ccs'. applyTempoControls changes b ccs = Inr ccs'
           \<and> map (\<lambda>(k, cs). (k, map untimed cs)) ccs' = map (\<lambda>(k, cs). (k, map untimed cs)) ccs"
proof (induction ccs)
  case Nil
  then show ?case by simp
next
  case (Cons kc ccs)
  obtain k cs where kc: "kc = (k, cs)" by (cases kc)
  from applyTempo_frame [OF assms, of b cs] obtain cs' where
    a: "applyTempo changes b cs = Inr cs'" and b: "map untimed cs' = map untimed cs" by blast
  from Cons.IH obtain rest' where
    c: "applyTempoControls changes b ccs = Inr rest'"
    and d: "map (\<lambda>(k, cs). (k, map untimed cs)) rest' = map (\<lambda>(k, cs). (k, map untimed cs)) ccs"
    by blast
  show ?case using kc a b c d by simp
qed

lemma applyTempoTrack_frame:
  assumes "changes \<noteq> []"
  shows "\<exists>t'. applyTempoTrack changes b t = Inr t' \<and> untimedTrack t' = untimedTrack t"
proof -
  from applyTempo_frame [OF assms, of b "notes' t"] obtain ns where
    a: "applyTempo changes b (notes' t) = Inr ns" and b: "map untimed ns = map untimed (notes' t)"
    by blast
  from applyTempoControls_frame [OF assms, of b "controlChanges t"] obtain ccs where
    c: "applyTempoControls changes b (controlChanges t) = Inr ccs"
    and d: "map (\<lambda>(k, cs). (k, map untimed cs)) ccs
              = map (\<lambda>(k, cs). (k, map untimed cs)) (controlChanges t)"
    by blast
  show ?thesis using a b c d by (simp add: applyTempoTrack_def untimedTrack_def)
qed

lemma applyTempoTracks_frame:
  assumes "changes \<noteq> []"
  shows "\<exists>ts'. applyTempoTracks changes b ts = Inr ts'
           \<and> map untimedTrack ts' = map untimedTrack ts"
proof (induction ts)
  case Nil
  then show ?case by simp
next
  case (Cons t ts)
  from applyTempoTrack_frame [OF assms, of b t] obtain t' where
    a: "applyTempoTrack changes b t = Inr t'" and b: "untimedTrack t' = untimedTrack t" by blast
  from Cons.IH obtain ts' where
    c: "applyTempoTracks changes b ts = Inr ts'"
    and d: "map untimedTrack ts' = map untimedTrack ts" by blast
  show ?case using a b c d by simp
qed

text \<open>
  Claim C10. For every Midi, every breakpoint list and every reference bpm,
  \<open>applyTempoChanges\<close> returns a Midi (it never throws) whose header is the one given
  and whose tracks, with times and durations erased, are the tracks given with times and
  durations erased: the same tracks in the same order, each with the same id, name,
  channel, instrument and type, the same notes and control changes in the same order
  under the same controllers, and every field of every element other than \<open>time\<close>
  and \<open>duration\<close> as it was.
\<close>

theorem applyTempoChanges_frame:
  "\<exists>this'. applyTempoChanges changes b this = Inr this'
      \<and> header this' = header this
      \<and> map untimedTrack (tracks this') = map untimedTrack (tracks this)"
proof (cases "changes = []")
  case True
  then show ?thesis by (simp add: applyTempoChanges_def)
next
  case False
  from applyTempoTracks_frame [OF False, of b "tracks this"] obtain ts' where
    "applyTempoTracks changes b (tracks this) = Inr ts'"
    "map untimedTrack ts' = map untimedTrack (tracks this)" by blast
  then show ?thesis using False by (simp add: applyTempoChanges_def)
qed


subsection \<open>The concrete scenario\<close>

lemma scenario_nominal:
  "time scenario_note = 1 \<and> duration scenario_note = Some (1 / 2)
     \<and> map time scenario_changes = [1 / 2] \<and> map value' scenario_changes = [60]"
  by (simp add: scenario_note_def scenario_changes_def scenario_header_def
      ticksToSeconds_def Control_new_def)

lemma scenario_warp:
  "applyTempoChanges scenario_changes 120 (scenario_midi scenario_note)
     = Inr (scenario_midi (scenario_note\<lparr>time := 1, duration := Some 1\<rparr>))"
  by (simp add: applyTempoChanges_def applyTempoTrack_def applyTempo_def
      applyTempoElement_def nextControl_stop Let_def
      scenario_midi_def scenario_track_def scenario_note_def scenario_changes_def
      scenario_header_def ticksToSeconds_def Control_new_def)



lemma scenario_decode:
  "decodeTokens (\<lambda>midiData. scenario_header) cleanName instrumentByName scenario_tokens
     = applyTempoChanges scenario_changes 120 (scenario_midi scenario_note)"
  apply (simp add: decodeTokens_def scenario_tokens_def demuxTrack_def onEvent_def
      initial_state_def Track_new_def assignChannel_def channelInstrument_def
      noteOn_def noteOff_def BinaryInsert_def findPosition_eval adoptName_def length'_def
      Let_def)
  apply (simp add: splitTracks_def splitTrack_def buildSubTracks_def addControls_def
      objectKeys_def addNote_def resolve_def getSubtrack_def setSubtrack_def property_def
      Track_new_def forEach_order_def Let_def)
  apply (simp add: scenario_header_def scenario_changes_def scenario_midi_def scenario_track_def
      scenario_note_def ticksToSeconds_def Control_new_def)
  done


lemma scenario_with_initial_tempo:
  "applyTempoChanges (Control_new NullNumber 0 120 (-1) (-1) # scenario_changes) 120
       (scenario_midi scenario_note)
     = Inr (scenario_midi (scenario_note\<lparr>time := 3 / 2, duration := Some 1\<rparr>))"
  by (simp add: applyTempoChanges_def applyTempoTrack_def applyTempo_def
      applyTempoElement_def nextControl_stop nextControl_step Let_def
      scenario_midi_def scenario_track_def scenario_note_def scenario_changes_def
      scenario_header_def ticksToSeconds_def Control_new_def)

text \<open>
  The stretch before the first breakpoint is never added to \<open>newTime\<close>: of two notes
  at nominal 0.4 s and 0.5 s the first stays at 0.4 s and the second, which starts with
  the breakpoint, is moved to 0 s.
\<close>

lemma scenario_warp_reorders:
  "applyTempo scenario_changes 120
       [scenario_note\<lparr>time := 2 / 5\<rparr>, scenario_note\<lparr>time := 1 / 2\<rparr>]
     = Inr [scenario_note\<lparr>time := 2 / 5\<rparr>,
            scenario_note\<lparr>time := 0, duration := Some 1\<rparr>]"
  by (simp add: applyTempo_def applyTempoElement_def nextControl_stop Let_def
      scenario_note_def scenario_changes_def scenario_header_def ticksToSeconds_def
      Control_new_def)

text \<open>
  Claim C1, as stated, fails. For the stream of the scenario \<open>applyTempoChanges\<close> with
  reference tempo 120 leaves the note at time 1 with duration 1, not at time 1.5 with
  duration 0.5.
\<close>

theorem scenario_warp_refuted:
  "applyTempoChanges scenario_changes 120 (scenario_midi scenario_note)
     = Inr (scenario_midi (scenario_note\<lparr>time := 1, duration := Some 1\<rparr>))
   \<and> note_timings (scenario_midi (scenario_note\<lparr>time := 1, duration := Some 1\<rparr>))
       = [[(1, Some 1)]]
   \<and> [[(1 :: real, Some (1 :: real))]] \<noteq> [[(3 / 2, Some (1 / 2))]]"
  unfolding scenario_warp
  by (simp add: note_timings_def scenario_midi_def scenario_track_def)

text \<open>
  Claim C1, amended. For the stream of the scenario the note's nominal duration is 0.5 s
  (480 ticks at PPQ 480 and 120 BPM), and \<open>applyTempoChanges\<close> with reference tempo
  120 multiplies it by the speed 2 of the 60 BPM segment the note starts in: the duration
  becomes 1 s.
\<close>

theorem scenario_warp_duration:
  "map_sum id note_durations
     (applyTempoChanges scenario_changes 120 (scenario_midi scenario_note)) = Inr [[Some 1]]"
  unfolding scenario_warp
  by (simp add: note_durations_def scenario_midi_def scenario_track_def)


section \<open>Properties of \<open>set bpm\<close>, \<open>toJSON\<close> and \<open>load\<close>\<close>

lemma scale_element_inverse:
  "a \<noteq> 0 \<Longrightarrow> b \<noteq> 0 \<Longrightarrow> scale_element (b / a) (scale_element (a / b) e) = e"
  by (cases "duration e") (simp_all add: scale_element_def)

lemma scale_inverse:
  assumes "a \<noteq> 0" "b \<noteq> 0"
  shows "scale (b / a) (scale (a / b) t) = t"
proof -
  have n: "map (scale_element (b / a) \<circ> scale_element (a / b)) ns = ns" for ns :: "Note list"
    using assms by (simp add: map_idI scale_element_inverse)
  have c: "map (scale_element (b / a) \<circ> scale_element (a / b)) cs = cs" for cs :: "Control list"
    using assms by (simp add: map_idI scale_element_inverse)
  have "map ((\<lambda>(k, ccs). (k, map (scale_element (b / a)) ccs))
              \<circ> (\<lambda>(k, ccs). (k, map (scale_element (a / b)) ccs))) kcs = kcs"
    for kcs :: "(control_number \<times> Control list) list"
    by (rule map_idI) (auto simp: c)
  then show ?thesis using n by (simp add: scale_def)
qed

text \<open>
  Claim C5. Setting the bpm of a Midi whose bpm is \<open>b1\<close> to \<open>b2\<close> and back to
  \<open>b1\<close>, both positive, gives back the Midi: every note's time and duration and every
  control change's time is restored (exactly, numbers being exact reals here).
\<close>

theorem set_bpm_round_trip:
  assumes "0 < b1" "0 < b2" "bpm (header this) = b1"
  shows "set_bpm b1 (set_bpm b2 this) = this"
proof -
  have "map (scale (b2 / b1) \<circ> scale (b1 / b2)) (tracks this) = tracks this"
    using assms by (simp add: map_idI scale_inverse)
  then show ?thesis using assms by (simp add: set_bpm_def Let_def)
qed

theorem set_bpm_round_trip_witness:
  "(0::real) < 120 \<and> (0::real) < 90 \<and> bpm (header (scenario_midi scenario_note)) = 120
     \<and> set_bpm 120 (set_bpm 90 (scenario_midi scenario_note)) = scenario_midi scenario_note
     \<and> note_timings (set_bpm 90 (scenario_midi scenario_note)) = [[(4 / 3, Some (2 / 3))]]"
proof -
  have h: "bpm (header (scenario_midi scenario_note)) = 120"
    by (simp add: scenario_midi_def scenario_header_def)
  have "set_bpm 120 (set_bpm 90 (scenario_midi scenario_note)) = scenario_midi scenario_note"
    using set_bpm_round_trip [of 120 90 "scenario_midi scenario_note"] h by simp
  moreover have "note_timings (set_bpm 90 (scenario_midi scenario_note)) = [[(4 / 3, Some (2 / 3))]]"
    by (simp add: note_timings_def set_bpm_def scale_def scale_element_def scenario_midi_def
        scenario_track_def scenario_note_def scenario_header_def ticksToSeconds_def)
  ultimately show ?thesis using h by simp
qed

text \<open>
  Claim C3, amended. \<open>toJSON\<close> leaves the tracks of the Midi and every header field
  other than the name as they were; the header name of the Midi itself becomes the
  empty string when it was unset (or empty) and stays as it was otherwise, and the
  record returned carries that same header.
\<close>

theorem toJSON_effect:
  "tracks (snd (toJSON trackToJSON trackStartTime trackDuration this)) = tracks this
   \<and> header (snd (toJSON trackToJSON trackStartTime trackDuration this))
       = (header this)\<lparr>Header.name :=
            Some (case Header.name (header this) of None \<Rightarrow> [] | Some nm \<Rightarrow> nm)\<rparr>
   \<and> json_header (fst (toJSON trackToJSON trackStartTime trackDuration this))
       = header (snd (toJSON trackToJSON trackStartTime trackDuration this))"
  by (cases "Header.name (header this)") (auto simp: toJSON_def Let_def)

text \<open>
  Claim C3, as stated, fails: on a newly constructed Midi, whose header name is unset,
  \<open>toJSON\<close> leaves a Midi that differs from the one it was called on, the header
  name now being the empty string.
\<close>

theorem toJSON_changes_header:
  "snd (toJSON id (real \<circ> length') (real \<circ> length') Midi_new) \<noteq> Midi_new
   \<and> Header.name (header Midi_new) = None
   \<and> Header.name (header (snd (toJSON id (real \<circ> length') (real \<circ> length') Midi_new))) = Some []"
  by (simp add: toJSON_def Midi_new_def Let_def)

text \<open>
  Claim C2, amended. On an \<open>error\<close> event and on a \<open>load\<close> event whose ready state
  is not 4 or whose status is not 200, the promise \<open>load\<close> returns is resolved with
  \<open>undefined\<close> after the error event or the status has been logged; it is not
  rejected. With ready state 4 and status 200 it is resolved with the decoded Midi, or
  stays pending when \<open>decode\<close> throws.
\<close>

theorem load_settlement:
  "load decodeBytes ErrorEvent = (Resolved None, [ErrorEventObject])
   \<and> load decodeBytes (LoadEvent readyState status response)
       = (if readyState = 4 \<and> status = 200
          then (case decodeBytes response of
                  Inr this \<Rightarrow> (Resolved (Some this), [])
                | Inl err \<Rightarrow> (Pending, []))
          else (Resolved None, [Status status]))"
  by (simp add: load_def executor_def catch_log_def split: sum.splits)

text \<open>
  Claim C2, as stated, fails: with status 404, and on an \<open>error\<close> event, the promise
  \<open>load\<close> returns is resolved, with \<open>undefined\<close>. (The decoder of this instance
  always throws; a parse failure leaves the promise pending.)
\<close>

theorem load_resolves_on_failure:
  "load (Inl \<circ> DecoderError) (LoadEvent 4 404 []) = (Resolved None, [Status 404])
   \<and> load (Inl \<circ> DecoderError) ErrorEvent = (Resolved None, [ErrorEventObject])
   \<and> load (Inl \<circ> DecoderError) (LoadEvent 4 200 []) = (Pending, [])"
  by (simp add: load_def executor_def catch_log_def)

section \<open>Properties of the tempo curve builder\<close>

lemma findPosition_partition:
  "sorted (map time xs) \<Longrightarrow> lo \<le> hi \<Longrightarrow> hi \<le> length xs
    \<Longrightarrow> (\<And>i. i < lo \<Longrightarrow> time (xs ! i) \<le> t)
    \<Longrightarrow> (\<And>i. hi \<le> i \<Longrightarrow> i < length xs \<Longrightarrow> t < time (xs ! i))
    \<Longrightarrow> findPosition xs t lo hi \<le> length xs
        \<and> (\<forall>i < findPosition xs t lo hi. time (xs ! i) \<le> t)
        \<and> (\<forall>i. findPosition xs t lo hi \<le> i \<and> i < length xs \<longrightarrow> t < time (xs ! i))"
proof (induction xs t lo hi rule: findPosition.induct)
  case (1 xs t lo hi)
  let ?mid = "(lo + hi) div 2"
  note srt = "1.prems"(1) and lohi = "1.prems"(2) and hilen = "1.prems"(3)
    and left = "1.prems"(4) and right = "1.prems"(5)
  have mono: "time (xs ! i) \<le> time (xs ! j)" if "i \<le> j" "j < length xs" for i j
  proof -
    have "map time xs ! i \<le> map time xs ! j"
      using srt that by (intro sorted_nth_mono) simp_all
    then show ?thesis using that by simp
  qed
  show ?case
  proof (cases "lo < hi")
    case False
    then have "findPosition xs t lo hi = lo" by (rule findPosition_stop)
    moreover have "lo = hi" using False lohi by simp
    ultimately show ?thesis using hilen left right by auto
  next
    case True
    then have mid: "lo \<le> ?mid" "?mid < hi" by auto
    show ?thesis
    proof (cases "time (xs ! ?mid) \<le> t")
      case le: True
      have below: "time (xs ! i) \<le> t" if "i < ?mid + 1" for i
      proof -
        have "time (xs ! i) \<le> time (xs ! ?mid)"
          using that mid hilen by (intro mono) auto
        then show ?thesis using le by simp
      qed
      have "findPosition xs t lo hi = findPosition xs t (?mid + 1) hi"
        using True le by (rule findPosition_right)
      moreover have "findPosition xs t (?mid + 1) hi \<le> length xs
        \<and> (\<forall>i < findPosition xs t (?mid + 1) hi. time (xs ! i) \<le> t)
        \<and> (\<forall>i. findPosition xs t (?mid + 1) hi \<le> i \<and> i < length xs \<longrightarrow> t < time (xs ! i))"
        using mid hilen below right srt
        by (intro "1.IH"(1) [OF True le]) auto
      ultimately show ?thesis by simp
    next
      case gt: False
      have above: "t < time (xs ! i)" if "?mid \<le> i" "i < length xs" for i
      proof -
        have "time (xs ! ?mid) \<le> time (xs ! i)" using that by (intro mono) auto
        then show ?thesis using gt by simp
      qed
      have "findPosition xs t lo hi = findPosition xs t lo ?mid"
        using True gt by (rule findPosition_left)
      moreover have "findPosition xs t lo ?mid \<le> length xs
        \<and> (\<forall>i < findPosition xs t lo ?mid. time (xs ! i) \<le> t)
        \<and> (\<forall>i. findPosition xs t lo ?mid \<le> i \<and> i < length xs \<longrightarrow> t < time (xs ! i))"
        using mid hilen above left srt
        by (intro "1.IH"(2) [OF True gt]) auto
      ultimately show ?thesis by simp
    qed
  qed
qed

lemma take_drop_filter:
  assumes "p \<le> length xs"
    and "\<forall>i < p. P (xs ! i)"
    and "\<forall>i. p \<le> i \<and> i < length xs \<longrightarrow> \<not> P (xs ! i)"
  shows "take p xs = filter P xs \<and> drop p xs = filter (\<lambda>x. \<not> P x) xs"
proof -
  have a: "\<forall>x \<in> set (take p xs). P x"
    using assms(1,2) by (auto simp: in_set_conv_nth)
  have b: "\<forall>x \<in> set (drop p xs). \<not> P x"
    using assms(1,3) by (auto simp: in_set_conv_nth)
  have "filter P xs = filter P (take p xs) @ filter P (drop p xs)"
    by (metis append_take_drop_id filter_append)
  moreover have "filter (\<lambda>x. \<not> P x) xs
      = filter (\<lambda>x. \<not> P x) (take p xs) @ filter (\<lambda>x. \<not> P x) (drop p xs)"
    by (metis append_take_drop_id filter_append)
  ultimately show ?thesis using a b by (simp add: filter_id_conv filter_empty_conv)
qed

lemma BinaryInsert_sorted_form:
  assumes "sorted (map time xs)"
  shows "BinaryInsert xs e
    = filter (\<lambda>x. time x \<le> time e) xs @ e # filter (\<lambda>x. time e < time x) xs"
proof -
  let ?p = "findPosition xs (time e) 0 (length xs)"
  have "?p \<le> length xs \<and> (\<forall>i < ?p. time (xs ! i) \<le> time e)
      \<and> (\<forall>i. ?p \<le> i \<and> i < length xs \<longrightarrow> time e < time (xs ! i))"
    by (rule findPosition_partition [OF assms]) auto
  then have "take ?p xs = filter (\<lambda>x. time x \<le> time e) xs
      \<and> drop ?p xs = filter (\<lambda>x. \<not> time x \<le> time e) xs"
    by (intro take_drop_filter) auto
  then show ?thesis by (simp add: BinaryInsert_def Let_def not_le)
qed

lemma BinaryInsert_sorted:
  assumes "sorted (map time xs)"
  shows "sorted (map time (BinaryInsert xs e))"
  unfolding BinaryInsert_sorted_form [OF assms]
  using assms by (auto simp: sorted_append sorted_filter intro: less_imp_le order_trans)

lemma foldl_BinaryInsert_sorted:
  "sorted (map time acc) \<Longrightarrow> sorted (map time (foldl BinaryInsert acc bs))"
  by (induction bs arbitrary: acc) (simp_all add: BinaryInsert_sorted)

text \<open>
  Claim C7. Whatever breakpoints are inserted into the empty sequence, in whatever order,
  the sequence is non-decreasing by time; and an insertion into a sequence that is
  non-decreasing by time puts the new entry after every entry whose time is at most its
  own, so after the existing entries of equal time, and before every later one.
\<close>

theorem BinaryInsert_keeps_order:
  "sorted (map time (foldl BinaryInsert [] bs))
   \<and> (sorted (map time xs) \<longrightarrow>
        BinaryInsert xs b
          = filter (\<lambda>x. time x \<le> time b) xs @ b # filter (\<lambda>x. time b < time x) xs)"
  by (simp add: foldl_BinaryInsert_sorted BinaryInsert_sorted_form)

theorem BinaryInsert_keeps_order_witness:
  "sorted (map time (foldl BinaryInsert [] [breakpoint 2 80, breakpoint 1 60, breakpoint 1 70]))
   \<and> sorted (map time [breakpoint 1 60, breakpoint 1 70, breakpoint 2 80])
   \<and> BinaryInsert [breakpoint 1 60, breakpoint 1 70, breakpoint 2 80] (breakpoint 1 90)
       = [breakpoint 1 60, breakpoint 1 70, breakpoint 1 90, breakpoint 2 80]"
proof -
  have s: "sorted (map time [breakpoint 1 60, breakpoint 1 70, breakpoint 2 80])"
    by (simp add: breakpoint_def Control_new_def)
  from BinaryInsert_keeps_order
    [of "[breakpoint 2 80, breakpoint 1 60, breakpoint 1 70]"
        "[breakpoint 1 60, breakpoint 1 70, breakpoint 2 80]" "breakpoint 1 90"]
  show ?thesis using s by (simp add: breakpoint_def Control_new_def)
qed

lemma foldl_BinaryInsert_example:
  "foldl BinaryInsert [] [breakpoint 2 80, breakpoint 1 60, breakpoint 1 70]
     = [breakpoint 1 60, breakpoint 1 70, breakpoint 2 80]"
  by (simp add: BinaryInsert_def findPosition_eval breakpoint_def Control_new_def)

section \<open>Properties of the demuxer and the splitter\<close>

subsection \<open>Reading and writing \<open>subTracks\<close>\<close>

lemma property_update:
  "property (AList.update k v al) k' = (if k' = k then v else property al k')"
  by (simp add: property_def update_conv')

lemma subtrackAt_setSubtrack:
  "subtrackAt (setSubtrack st ch inst t) c i
     = (if c = ch \<and> i = inst then Some t else subtrackAt st c i)"
  by (simp add: subtrackAt_def setSubtrack_def property_update update_conv')

lemma setSubtrack_twice:
  "setSubtrack (setSubtrack st ch inst t) ch inst t' = setSubtrack st ch inst t'"
  by (simp add: setSubtrack_def property_update)

lemma getSubtrack_eq:
  "getSubtrack fmt mt st ch inst =
     (case subtrackAt st ch inst of
        Some t \<Rightarrow> (st, t)
      | None \<Rightarrow> (setSubtrack st ch inst (newSubtrack fmt mt ch inst), newSubtrack fmt mt ch inst))"
  by (simp add: getSubtrack_def subtrackAt_def setSubtrack_def newSubtrack_def Let_def
      split: option.splits)

lemma addNote_eq:
  "addNote fmt mt st n0 =
     setSubtrack st (channel (resolve mt n0)) (instrument (resolve mt n0))
       ((present fmt mt st (channel (resolve mt n0)) (instrument (resolve mt n0)))
          \<lparr>notes' := notes' (present fmt mt st (channel (resolve mt n0)) (instrument (resolve mt n0)))
                      @ [resolve mt n0]\<rparr>)"
  by (simp add: addNote_def getSubtrack_eq present_def Let_def setSubtrack_twice
      split: option.splits)

lemma addControl_eq:
  "addControl fmt mt k st c0 =
     setSubtrack st (channel (resolve mt c0)) (instrument (resolve mt c0))
       ((present fmt mt st (channel (resolve mt c0)) (instrument (resolve mt c0)))
          \<lparr>controlChanges :=
             AList.update k
               (property (controlChanges (present fmt mt st (channel (resolve mt c0))
                    (instrument (resolve mt c0)))) k @ [resolve mt c0])
               (controlChanges (present fmt mt st (channel (resolve mt c0))
                    (instrument (resolve mt c0))))\<rparr>)"
  by (simp add: addControl_def getSubtrack_eq present_def Let_def setSubtrack_twice
      split: option.splits)

subsection \<open>The multiset of notes in \<open>subTracks\<close>\<close>

lemma sum_list_update:
  fixes f :: "'k \<times> 'v \<Rightarrow> 'a::comm_monoid_add"
  shows "sum_list (map f (AList.update k v al))
           + (case map_of al k of None \<Rightarrow> 0 | Some old \<Rightarrow> f (k, old))
         = sum_list (map f al) + f (k, v)"
  by (induction al) (auto simp: ac_simps)

lemma gridNotes_setSubtrack:
  "gridNotes (setSubtrack st ch inst t)
     + (case subtrackAt st ch inst of
          None \<Rightarrow> {#}
        | Some old \<Rightarrow> weight ch (weight inst (mset (notes' old))))
   = gridNotes st + weight ch (weight inst (mset (notes' t)))"
proof -
  let ?row = "property st ch"
  let ?row' = "AList.update inst t ?row"
  let ?old = "case map_of ?row inst of None \<Rightarrow> {#} | Some old \<Rightarrow> weight inst (mset (notes' old))"
  have row: "rowNotes ?row' + ?old = rowNotes ?row + weight inst (mset (notes' t))"
    using sum_list_update [of "\<lambda>(i, t). weight i (mset (notes' t))" inst t ?row]
    by (simp add: rowNotes_def split: option.splits)
  have "gridNotes (AList.update ch ?row' st)
      + (case map_of st ch of None \<Rightarrow> {#} | Some old \<Rightarrow> weight ch (rowNotes old))
      = gridNotes st + weight ch (rowNotes ?row')"
    using sum_list_update [of "\<lambda>(c, row). weight c (rowNotes row)" ch ?row' st]
    by (simp add: gridNotes_def split: option.splits)
  moreover have "(case map_of st ch of None \<Rightarrow> {#} | Some old \<Rightarrow> weight ch (rowNotes old))
      = weight ch (rowNotes ?row)"
    by (simp add: property_def rowNotes_def weight_def split: option.splits)
  ultimately have grid: "gridNotes (setSubtrack st ch inst t) + weight ch (rowNotes ?row)
      = gridNotes st + weight ch (rowNotes ?row')"
    by (simp add: setSubtrack_def)
  show ?thesis
  proof (cases "0 \<le> ch")
    case True
    have "(gridNotes (setSubtrack st ch inst t) + ?old) + rowNotes ?row
        = (gridNotes (setSubtrack st ch inst t) + rowNotes ?row) + ?old"
      by (simp add: ac_simps)
    also have "\<dots> = (gridNotes st + rowNotes ?row') + ?old"
      using grid True by (simp add: weight_def)
    also have "\<dots> = gridNotes st + (rowNotes ?row + weight inst (mset (notes' t)))"
      using row by (simp add: ac_simps)
    also have "\<dots> = (gridNotes st + weight inst (mset (notes' t))) + rowNotes ?row"
      by (simp add: ac_simps)
    finally have "gridNotes (setSubtrack st ch inst t) + ?old
        = gridNotes st + weight inst (mset (notes' t))"
      by simp
    then show ?thesis
      using True by (auto simp: subtrackAt_def weight_def split: option.splits if_splits)
  next
    case False
    then show ?thesis
      using grid by (simp add: subtrackAt_def weight_def split: option.splits)
  qed
qed

lemma notes_present_new:
  "subtrackAt st ch inst = None \<Longrightarrow> notes' (present fmt mt st ch inst) = []"
  by (simp add: present_def newSubtrack_def Track_new_def)

lemma present_old:
  "subtrackAt st ch inst = Some t \<Longrightarrow> present fmt mt st ch inst = t"
  by (simp add: present_def)

lemma gridNotes_addNote:
  assumes "0 \<le> channel (resolve mt n0)" "0 \<le> instrument (resolve mt n0)"
  shows "gridNotes (addNote fmt mt st n0) = gridNotes st + {#resolve mt n0#}"
proof -
  let ?ch = "channel (resolve mt n0)" and ?inst = "instrument (resolve mt n0)"
  let ?sub = "present fmt mt st ?ch ?inst"
  have "(case subtrackAt st ?ch ?inst of
           None \<Rightarrow> {#}
         | Some old \<Rightarrow> weight ?ch (weight ?inst (mset (notes' old))))
       = mset (notes' ?sub)"
    using assms by (simp add: present_def newSubtrack_def Track_new_def weight_def
        split: option.splits)
  then have "gridNotes (addNote fmt mt st n0) + mset (notes' ?sub)
      = (gridNotes st + {#resolve mt n0#}) + mset (notes' ?sub)"
    using assms gridNotes_setSubtrack [of st ?ch ?inst "?sub\<lparr>notes' := notes' ?sub @ [resolve mt n0]\<rparr>"]
    by (simp add: addNote_eq weight_def ac_simps)
  then show ?thesis by simp
qed

lemma gridNotes_addControl:
  "gridNotes (addControl fmt mt k st c0) = gridNotes st"
proof -
  let ?ch = "channel (resolve mt c0)" and ?inst = "instrument (resolve mt c0)"
  let ?sub = "present fmt mt st ?ch ?inst"
  let ?sub' = "?sub\<lparr>controlChanges :=
      AList.update k (property (controlChanges ?sub) k @ [resolve mt c0]) (controlChanges ?sub)\<rparr>"
  have "(case subtrackAt st ?ch ?inst of
           None \<Rightarrow> {#}
         | Some old \<Rightarrow> weight ?ch (weight ?inst (mset (notes' old))))
       = weight ?ch (weight ?inst (mset (notes' ?sub')))"
    by (simp add: present_def newSubtrack_def Track_new_def weight_def split: option.splits)
  then have "gridNotes (addControl fmt mt k st c0) + weight ?ch (weight ?inst (mset (notes' ?sub')))
      = gridNotes st + weight ?ch (weight ?inst (mset (notes' ?sub')))"
    using gridNotes_setSubtrack [of st ?ch ?inst ?sub']
    by (simp add: addControl_eq)
  then show ?thesis by simp
qed

lemma gridNotes_addNotes:
  "\<forall>n \<in> set ns. 0 \<le> channel (resolve mt n) \<and> 0 \<le> instrument (resolve mt n)
     \<Longrightarrow> gridNotes (foldl (addNote fmt mt) st ns) = gridNotes st + mset (map (resolve mt) ns)"
  by (induction ns arbitrary: st) (simp_all add: gridNotes_addNote)

lemma gridNotes_addControl_list:
  "gridNotes (foldl (addControl fmt mt k) st cs) = gridNotes st"
  by (induction cs arbitrary: st) (simp_all add: gridNotes_addControl)

lemma gridNotes_addControl_keys:
  "gridNotes (foldl (\<lambda>st k. foldl (addControl fmt mt k) st (property obj k)) st ks) = gridNotes st"
  by (induction ks arbitrary: st) (simp_all add: gridNotes_addControl_list)

lemma gridNotes_buildSubTracks:
  assumes "\<forall>n \<in> set (notes' mt). 0 \<le> channel (resolve mt n) \<and> 0 \<le> instrument (resolve mt n)"
  shows "gridNotes (buildSubTracks fmt mt) = mset (map (resolve mt) (notes' mt))"
proof -
  have "gridNotes [] = {#}" by (simp add: gridNotes_def)
  then show ?thesis
    using gridNotes_addNotes [OF assms, of fmt "[]"]
    by (simp add: buildSubTracks_def addControls_def gridNotes_addControl_keys)
qed

subsection \<open>Flattening \<open>subTracks\<close> into the output\<close>

lemma sum_list_insort_key:
  fixes g :: "'a \<Rightarrow> 'b::comm_monoid_add"
  shows "sum_list (map g (insort_key f x xs)) = g x + sum_list (map g xs)"
  by (induction xs) (auto simp: ac_simps)

lemma sum_list_sort_key:
  fixes g :: "'a \<Rightarrow> 'b::comm_monoid_add"
  shows "sum_list (map g (sort_key f xs)) = sum_list (map g xs)"
  by (induction xs) (simp_all add: sum_list_insort_key)

lemma sum_list_forEach_order:
  fixes g :: "'a \<Rightarrow> 'b::comm_monoid_add"
  shows "sum_list (map g (forEach_order a)) = sum_list (map (\<lambda>(k, v). weight k (g v)) a)"
proof -
  have "sum_list (map (g \<circ> snd) (filter (\<lambda>(k, v). 0 \<le> k) a))
      = sum_list (map (\<lambda>(k, v). weight k (g v)) a)"
    by (induction a) (auto simp: weight_def)
  then show ?thesis
    using sum_list_sort_key [of "g \<circ> snd" fst "filter (\<lambda>(k, v). 0 \<le> k) a"]
    by (simp add: forEach_order_def)
qed

lemma mset_allNotes: "mset (allNotes ts) = sum_list (map (\<lambda>t. mset (notes' t)) ts)"
  by (simp add: allNotes_def mset_concat comp_def)

lemma sum_list_map_concat:
  fixes g :: "'a \<Rightarrow> 'b::comm_monoid_add"
  shows "sum_list (map g (concat xss)) = sum_list (map (\<lambda>xs. sum_list (map g xs)) xss)"
  by (induction xss) simp_all

lemma allNotes_flatten:
  "mset (allNotes (concat (map forEach_order (forEach_order st)))) = gridNotes st"
proof -
  have "mset (allNotes (concat (map forEach_order (forEach_order st))))
      = sum_list (map (\<lambda>row. sum_list (map (\<lambda>t. mset (notes' t)) (forEach_order row)))
          (forEach_order st))"
    by (simp add: mset_allNotes sum_list_map_concat comp_def)
  also have "\<dots> = sum_list (map rowNotes (forEach_order st))"
    by (simp add: sum_list_forEach_order rowNotes_def)
  also have "\<dots> = gridNotes st"
    by (simp add: sum_list_forEach_order gridNotes_def)
  finally show ?thesis .
qed

lemma allNotes_insertSubTracks:
  "allNotes (fst (insertSubTracks (out, trackId) ts)) = allNotes out @ allNotes ts"
  by (induction ts arbitrary: out trackId) (simp_all add: allNotes_def)

lemma allNotes_splitTrack:
  assumes "\<forall>n \<in> set (notes' mt). 0 \<le> channel (resolve mt n) \<and> 0 \<le> instrument (resolve mt n)"
  shows "mset (allNotes (fst (splitTrack fmt (out, trackId) mt)))
    = mset (allNotes out) + mset (map (resolve mt) (notes' mt))"
  by (simp add: splitTrack_def allNotes_insertSubTracks allNotes_flatten
      gridNotes_buildSubTracks [OF assms])

lemma allNotes_foldl_splitTrack:
  "\<forall>mt \<in> set raw. \<forall>n \<in> set (notes' mt).
       0 \<le> channel (resolve mt n) \<and> 0 \<le> instrument (resolve mt n)
     \<Longrightarrow> mset (allNotes (fst (foldl (splitTrack fmt) acc raw)))
         = mset (allNotes (fst acc)) + mset (resolvedNotes raw)"
proof (induction raw arbitrary: acc)
  case Nil
  then show ?case by (simp add: resolvedNotes_def)
next
  case (Cons mt raw)
  obtain out trackId where acc: "acc = (out, trackId)" by (cases acc)
  have "mset (allNotes (fst (splitTrack fmt acc mt)))
      = mset (allNotes (fst acc)) + mset (map (resolve mt) (notes' mt))"
    using Cons.prems acc by (simp add: allNotes_splitTrack)
  then show ?case using Cons by (simp add: resolvedNotes_def)
qed

lemma splitTracks_notes:
  assumes "\<forall>mt \<in> set raw. \<forall>n \<in> set (notes' mt).
       0 \<le> channel (resolve mt n) \<and> 0 \<le> instrument (resolve mt n)"
  shows "mset (allNotes (splitTracks fmt raw)) = mset (resolvedNotes raw)"
  using allNotes_foldl_splitTrack [OF assms, of fmt "([], 0)"]
  by (simp add: splitTracks_def allNotes_def)

lemma noteCount_allNotes: "noteCount ts = length (allNotes ts)"
  by (simp add: noteCount_def allNotes_def length_concat comp_def)

lemma length_resolvedNotes: "length (resolvedNotes raw) = noteCount raw"
  by (simp add: resolvedNotes_def noteCount_def length_concat comp_def)

lemma splitTracks_noteCount:
  assumes "\<forall>mt \<in> set raw. \<forall>n \<in> set (notes' mt).
       0 \<le> channel (resolve mt n) \<and> 0 \<le> instrument (resolve mt n)"
  shows "noteCount (splitTracks fmt raw) = noteCount raw"
proof -
  have "size (mset (allNotes (splitTracks fmt raw))) = size (mset (resolvedNotes raw))"
    by (simp only: splitTracks_notes [OF assms])
  then show ?thesis by (simp add: noteCount_allNotes length_resolvedNotes)
qed

subsection \<open>What the demuxer hands to the splitter\<close>

lemma closeNote_keys:
  "map (\<lambda>n. (channel n, instrument n)) (closeNote ns m tm ch)
     = map (\<lambda>n. (channel n, instrument n)) ns"
  by (induction ns) simp_all

lemma closeNote_wf:
  assumes "\<forall>n \<in> set ns. 0 \<le> channel n \<and> -1 \<le> instrument n"
  shows "\<forall>n \<in> set (closeNote ns m tm ch). 0 \<le> channel n \<and> -1 \<le> instrument n"
proof -
  have "\<forall>p \<in> set (map (\<lambda>n. (channel n, instrument n)) ns). 0 \<le> fst p \<and> -1 \<le> snd p"
    using assms by simp
  then have "\<forall>p \<in> set (map (\<lambda>n. (channel n, instrument n)) (closeNote ns m tm ch)).
      0 \<le> fst p \<and> -1 \<le> snd p"
    by (simp only: closeNote_keys)
  then show ?thesis by simp
qed

lemma channelInstrument_wf: "wf_state s \<Longrightarrow> -1 \<le> channelInstrument s ch"
  by (auto simp: wf_state_def channelInstrument_def split: option.splits)

lemma assignChannel_wf: "wf_state s \<Longrightarrow> wf_state (assignChannel s b)"
  by (auto simp: wf_state_def wf_track_def assignChannel_def split: option.splits)

lemma recordControlChange_wf: "wf_state s \<Longrightarrow> wf_state (recordControlChange s b)"
  by (cases b) (auto simp: wf_state_def)

lemma dispatch_wf:
  assumes "wf_state s"
  shows "wf_state (dispatch cleanName instrumentByName s b)"
proof (cases b)
  case (NoteOn ch noteNumber vel)
  then show ?thesis
    using assms channelInstrument_wf [OF assms, of "int ch"]
    by (auto simp: wf_state_def wf_track_def noteOn_def Let_def)
next
  case (NoteOff ch noteNumber vel)
  then show ?thesis
    using assms closeNote_wf [of "notes' (track s)" noteNumber "absoluteTime s" "int ch"]
    by (simp add: wf_state_def wf_track_def noteOff_def)
next
  case (Controller ch controllerType v)
  then show ?thesis
    using assms by (auto simp: wf_state_def wf_track_def cc_def Let_def)
next
  case (ProgramChange ch programNumber)
  then show ?thesis
    using assms by (auto simp: wf_state_def wf_track_def patch_def Let_def)
next
  case (PitchBend ch v)
  then show ?thesis
    using assms by (auto simp: wf_state_def wf_track_def cc_def Let_def)
next
  case (InstrumentName str)
  have "-1 \<le> instrumentNumber (set_instrument instrumentByName
      ((Track_new None (-1) (-1))\<lparr>channelNumber := channel' s\<rparr>) str)"
    by (simp add: set_instrument_def Track_new_def split: option.splits)
  with InstrumentName show ?thesis
    using assms by (auto simp: wf_state_def wf_track_def patch_def Let_def)
qed (insert assms, auto simp: wf_state_def wf_track_def)

lemma onEvent_wf: "wf_state s \<Longrightarrow> wf_state (onEvent cleanName instrumentByName hdr s ev)"
proof -
  assume "wf_state s"
  then have "wf_state (s\<lparr>absoluteTime := absoluteTime s + ticksToSeconds (deltaTime ev) hdr\<rparr>)"
    by (simp add: wf_state_def)
  then show ?thesis
    by (simp add: onEvent_def Let_def dispatch_wf recordControlChange_wf assignChannel_wf)
qed

lemma foldl_onEvent_wf:
  "wf_state s \<Longrightarrow> wf_state (foldl (onEvent cleanName instrumentByName hdr) s evs)"
  by (induction evs arbitrary: s) (simp_all add: onEvent_wf)

lemma demuxTrack_wf:
  assumes "wf_state s"
  shows "wf_state (demuxTrack cleanName instrumentByName hdr s trackData)"
proof -
  have "wf_state (s\<lparr>track := Track_new None (-1) (-1), channel' := -1, instrument' := -1,
          absoluteTime := 0, channelCC := (\<lambda>ch. None),
          channelPitchBendRange := (\<lambda>ch. None)\<rparr>)"
    using assms by (simp add: wf_state_def wf_track_def Track_new_def)
  then show ?thesis unfolding demuxTrack_def by (rule foldl_onEvent_wf)
qed

lemma demux_wf:
  "wf_state s \<Longrightarrow> \<forall>t \<in> set raw. wf_track t
     \<Longrightarrow> \<forall>t \<in> set (fst (snd (demux cleanName instrumentByName (hdr, raw, s) trackDatas))). wf_track t"
proof (induction trackDatas arbitrary: hdr raw s)
  case Nil
  then show ?case by simp
next
  case (Cons trackData rest)
  let ?s' = "demuxTrack cleanName instrumentByName hdr s trackData"
  have s': "wf_state ?s'" using Cons.prems(1) by (rule demuxTrack_wf)
  then have "\<forall>t \<in> set (raw @ [track ?s']). wf_track t"
    using Cons.prems(2) by (simp add: wf_state_def)
  from Cons.IH [OF s' this] show ?case by (simp add: Let_def)
qed

lemma rawTracks_wf: "\<forall>t \<in> set (rawTracks cleanName instrumentByName hdr trackDatas). wf_track t"
  unfolding rawTracks_def
  by (rule demux_wf) (simp_all add: wf_state_def wf_track_def initial_state_def Track_new_def)

lemma wf_track_resolve:
  "wf_track t \<Longrightarrow> n \<in> set (notes' t)
     \<Longrightarrow> 0 \<le> channel (resolve t n) \<and> 0 \<le> instrument (resolve t n)"
  by (auto simp: wf_track_def resolve_def Let_def)

lemma wf_track_sansInstrument:
  "wf_track t \<Longrightarrow> n \<in> set (notes' t) \<Longrightarrow> sansInstrument (resolve t n) = sansInstrument n"
  by (auto simp: wf_track_def resolve_def sansInstrument_def Let_def)

lemma wf_resolvedNotes:
  "\<forall>t \<in> set raw. wf_track t
     \<Longrightarrow> map sansInstrument (resolvedNotes raw) = map sansInstrument (allNotes raw)"
  by (induction raw) (simp_all add: resolvedNotes_def allNotes_def wf_track_sansInstrument)

text \<open>
  Claim C6. For every token stream, the notes of the tracks the splitting step puts out
  are, as a multiset, the notes of the raw tracks the demuxer handed to it, each with its
  channel and instrument resolved: every note occurs in the output exactly as often as
  in the input, none is dropped, none is duplicated and none is replaced by another. The
  resolution touches the instrument only, so with the instrument blanked the two
  multisets of notes are the same; and the two totals are equal.
\<close>

theorem split_preserves_notes:
  "mset (allNotes (splitTracks fmt (rawTracks cleanName instrumentByName hdr trackDatas)))
     = mset (resolvedNotes (rawTracks cleanName instrumentByName hdr trackDatas))
   \<and> mset (map sansInstrument
        (allNotes (splitTracks fmt (rawTracks cleanName instrumentByName hdr trackDatas))))
     = mset (map sansInstrument (allNotes (rawTracks cleanName instrumentByName hdr trackDatas)))
   \<and> noteCount (splitTracks fmt (rawTracks cleanName instrumentByName hdr trackDatas))
     = noteCount (rawTracks cleanName instrumentByName hdr trackDatas)"
proof -
  let ?raw = "rawTracks cleanName instrumentByName hdr trackDatas"
  have keys: "\<forall>mt \<in> set ?raw. \<forall>n \<in> set (notes' mt).
      0 \<le> channel (resolve mt n) \<and> 0 \<le> instrument (resolve mt n)"
    using rawTracks_wf wf_track_resolve by blast
  have a: "mset (allNotes (splitTracks fmt ?raw)) = mset (resolvedNotes ?raw)"
    using keys by (rule splitTracks_notes)
  have "image_mset sansInstrument (mset (allNotes (splitTracks fmt ?raw)))
      = image_mset sansInstrument (mset (resolvedNotes ?raw))"
    by (simp only: a)
  then have b: "mset (map sansInstrument (allNotes (splitTracks fmt ?raw)))
      = mset (map sansInstrument (allNotes ?raw))"
    using wf_resolvedNotes [OF rawTracks_wf, of cleanName instrumentByName hdr trackDatas]
    by (metis mset_map)
  have c: "noteCount (splitTracks fmt ?raw) = noteCount ?raw"
    using keys by (rule splitTracks_noteCount)
  show ?thesis using a b c by simp
qed

subsection \<open>Tempo changes found by the demuxer\<close>

lemma onEvent_tempoChanges_sorted:
  assumes "sorted (map time (tempoChanges s))"
  shows "sorted (map time (tempoChanges (onEvent cleanName instrumentByName hdr s ev)))"
proof -
  have a: "tempoChanges (assignChannel s1 b) = tempoChanges s1" for s1 b
    by (simp add: assignChannel_def split: option.splits)
  have r: "tempoChanges (recordControlChange s1 b) = tempoChanges s1" for s1 b
    by (cases b) simp_all
  have d: "sorted (map time (tempoChanges s1))
      \<Longrightarrow> sorted (map time (tempoChanges (dispatch cleanName instrumentByName s1 b)))" for s1 b
    by (cases b) (simp_all add: Let_def BinaryInsert_sorted)
  show ?thesis using assms by (simp add: onEvent_def Let_def d r a)
qed

lemma demuxTrack_tempoChanges_sorted:
  assumes "sorted (map time (tempoChanges s))"
  shows "sorted (map time (tempoChanges (demuxTrack cleanName instrumentByName hdr s trackData)))"
proof -
  have "sorted (map time (tempoChanges s1))
      \<Longrightarrow> sorted (map time (tempoChanges (foldl (onEvent cleanName instrumentByName hdr) s1 evs)))"
    for s1 evs
    by (induction evs arbitrary: s1) (simp_all add: onEvent_tempoChanges_sorted)
  then show ?thesis using assms by (simp add: demuxTrack_def)
qed

lemma demux_tempoChanges_sorted:
  "sorted (map time (tempoChanges s))
     \<Longrightarrow> sorted (map time (tempoChanges
           (snd (snd (demux cleanName instrumentByName (hdr, raw, s) trackDatas)))))"
  by (induction trackDatas arbitrary: hdr raw s)
    (simp_all add: Let_def demuxTrack_tempoChanges_sorted)

subsection \<open>The channel number of a raw track\<close>

lemma closeNote_channelNumber:
  "channelNumber (noteOff t m tm ch) = channelNumber t"
  by (simp add: noteOff_def)

lemma onEvent_channelNumber_kept:
  assumes "channelNumber (track s) \<noteq> -1"
  shows "channelNumber (track (onEvent cleanName instrumentByName hdr s ev)) = channelNumber (track s)"
proof -
  let ?s1 = "s\<lparr>absoluteTime := absoluteTime s + ticksToSeconds (deltaTime ev) hdr\<rparr>"
  have a: "track (assignChannel ?s1 (body ev)) = track s"
    using assms by (simp add: assignChannel_def split: option.splits)
  have r: "track (recordControlChange s1 b) = track s1" for s1 b
    by (cases b) simp_all
  have d: "channelNumber (track s1) \<noteq> -1
      \<Longrightarrow> channelNumber (track (dispatch cleanName instrumentByName s1 b)) = channelNumber (track s1)"
    for s1 b
    by (cases b) (simp_all add: Let_def noteOn_def noteOff_def cc_def patch_def)
  show ?thesis using assms by (simp add: onEvent_def Let_def d r a)
qed

lemma onEvent_channelNumber_first:
  assumes "channelNumber (track s) = -1" "event_channel (body ev) = Some ch" "ch \<noteq> 0"
  shows "channelNumber (track (onEvent cleanName instrumentByName hdr s ev)) = int ch"
proof -
  let ?s1 = "s\<lparr>absoluteTime := absoluteTime s + ticksToSeconds (deltaTime ev) hdr\<rparr>"
  have a: "channelNumber (track (assignChannel ?s1 (body ev))) = int ch"
    using assms by (simp add: assignChannel_def)
  have r: "track (recordControlChange s1 b) = track s1" for s1 b
    by (cases b) simp_all
  have d: "channelNumber (track s1) \<noteq> -1
      \<Longrightarrow> channelNumber (track (dispatch cleanName instrumentByName s1 b)) = channelNumber (track s1)"
    for s1 b
    by (cases b) (simp_all add: Let_def noteOn_def noteOff_def cc_def patch_def)
  have "channelNumber (track (recordControlChange (assignChannel ?s1 (body ev)) (body ev))) \<noteq> -1"
    using a by (simp add: r)
  from d [OF this] show ?thesis using a by (simp add: onEvent_def Let_def r)
qed

text \<open>
  Claim C4 fails on the code for channel 0. A raw track whose first token is a controller
  change on channel 0, followed by a note-on on channel 1, gets channel number 1; with the
  controller change alone its channel number stays unset.
\<close>

theorem channelNumber_misses_channel_zero:
  "channelNumber (track (demuxTrack cleanName instrumentByName hdr s
       [\<lparr>deltaTime = 0, body = Controller 0 7 100\<rparr>,
        \<lparr>deltaTime = 10, body = NoteOn 1 60 100\<rparr>])) = 1
   \<and> channelNumber (track (demuxTrack cleanName instrumentByName hdr s
       [\<lparr>deltaTime = 0, body = Controller 0 7 100\<rparr>])) = -1"
  by (simp add: demuxTrack_def onEvent_def assignChannel_def Track_new_def cc_def noteOn_def
      Let_def)

subsection \<open>Every sub track sits under its own channel and instrument\<close>

lemma present_keys:
  "keyed st \<Longrightarrow> channelNumber (present fmt mt st ch inst) = ch
     \<and> instrumentNumber (present fmt mt st ch inst) = inst"
  by (auto simp: keyed_def present_def newSubtrack_def Track_new_def split: option.splits)

lemma keyed_empty: "keyed []"
  by (simp add: keyed_def subtrackAt_def property_def)

lemma keyed_addNote: "keyed st \<Longrightarrow> keyed (addNote fmt mt st n0)"
  using present_keys [of st fmt mt "channel (resolve mt n0)" "instrument (resolve mt n0)"]
  by (auto simp: keyed_def addNote_eq subtrackAt_setSubtrack)

lemma keyed_addControl: "keyed st \<Longrightarrow> keyed (addControl fmt mt k st c0)"
  using present_keys [of st fmt mt "channel (resolve mt c0)" "instrument (resolve mt c0)"]
  by (auto simp: keyed_def addControl_eq subtrackAt_setSubtrack)

lemma keyed_addNotes: "keyed st \<Longrightarrow> keyed (foldl (addNote fmt mt) st ns)"
  by (induction ns arbitrary: st) (simp_all add: keyed_addNote)

lemma keyed_addControl_list: "keyed st \<Longrightarrow> keyed (foldl (addControl fmt mt k) st cs)"
  by (induction cs arbitrary: st) (simp_all add: keyed_addControl)

lemma keyed_addControls: "keyed st \<Longrightarrow> keyed (addControls fmt mt st)"
proof -
  have "keyed st1 \<Longrightarrow>
      keyed (foldl (\<lambda>st k. foldl (addControl fmt mt k) st (property obj k)) st1 ks)" for st1 ks obj
    by (induction ks arbitrary: st1) (simp_all add: keyed_addControl_list)
  then show "keyed st \<Longrightarrow> keyed (addControls fmt mt st)" by (simp add: addControls_def)
qed

lemma keyed_buildSubTracks: "keyed (buildSubTracks fmt mt)"
  by (simp add: buildSubTracks_def keyed_addControls keyed_addNotes keyed_empty)

subsection \<open>A note stays where it was put\<close>

lemma holdsNote_addNote_new: "holdsNote (addNote fmt mt st n0) (resolve mt n0)"
  by (simp add: holdsNote_def addNote_eq subtrackAt_setSubtrack)

lemma holdsNote_addNote: "holdsNote st n \<Longrightarrow> holdsNote (addNote fmt mt st n0) n"
  by (auto simp: holdsNote_def addNote_eq subtrackAt_setSubtrack present_def)

lemma holdsNote_addControl: "holdsNote st n \<Longrightarrow> holdsNote (addControl fmt mt k st c0) n"
  by (auto simp: holdsNote_def addControl_eq subtrackAt_setSubtrack present_def)

lemma holdsNote_addNotes_kept:
  "holdsNote st n \<Longrightarrow> holdsNote (foldl (addNote fmt mt) st ns) n"
  by (induction ns arbitrary: st) (simp_all add: holdsNote_addNote)

lemma holdsNote_addNotes:
  "n0 \<in> set ns \<Longrightarrow> holdsNote (foldl (addNote fmt mt) st ns) (resolve mt n0)"
proof (induction ns arbitrary: st)
  case Nil
  then show ?case by simp
next
  case (Cons a ns)
  show ?case
  proof (cases "n0 = a")
    case True
    then show ?thesis by (simp add: holdsNote_addNotes_kept holdsNote_addNote_new)
  next
    case False
    then show ?thesis using Cons by simp
  qed
qed

lemma holdsNote_addControls: "holdsNote st n \<Longrightarrow> holdsNote (addControls fmt mt st) n"
proof -
  have inner: "holdsNote st1 n \<Longrightarrow> holdsNote (foldl (addControl fmt mt k) st1 cs) n" for st1 k cs
    by (induction cs arbitrary: st1) (simp_all add: holdsNote_addControl)
  have "holdsNote st1 n \<Longrightarrow>
      holdsNote (foldl (\<lambda>st k. foldl (addControl fmt mt k) st (property obj k)) st1 ks) n"
    for st1 ks obj
    by (induction ks arbitrary: st1) (simp_all add: inner)
  then show "holdsNote st n \<Longrightarrow> holdsNote (addControls fmt mt st) n"
    by (simp add: addControls_def)
qed

lemma holdsNote_buildSubTracks:
  "n0 \<in> set (notes' mt) \<Longrightarrow> holdsNote (buildSubTracks fmt mt) (resolve mt n0)"
  by (simp add: buildSubTracks_def holdsNote_addControls holdsNote_addNotes)

subsection \<open>A control change stays where it was put\<close>

lemma holdsControl_addControl_new:
  "holdsControl (addControl fmt mt k st c0) k (resolve mt c0)"
  by (simp add: holdsControl_def addControl_eq subtrackAt_setSubtrack property_update)

lemma holdsControl_addControl:
  "holdsControl st k c \<Longrightarrow> holdsControl (addControl fmt mt k' st c0) k c"
  by (auto simp: holdsControl_def addControl_eq subtrackAt_setSubtrack present_def
      property_update)

lemma holdsControl_list_kept:
  "holdsControl st k c \<Longrightarrow> holdsControl (foldl (addControl fmt mt k') st cs) k c"
  by (induction cs arbitrary: st) (simp_all add: holdsControl_addControl)

lemma holdsControl_list:
  "c0 \<in> set cs \<Longrightarrow> holdsControl (foldl (addControl fmt mt k) st cs) k (resolve mt c0)"
proof (induction cs arbitrary: st)
  case Nil
  then show ?case by simp
next
  case (Cons a cs)
  show ?case
  proof (cases "c0 = a")
    case True
    then show ?thesis by (simp add: holdsControl_list_kept holdsControl_addControl_new)
  next
    case False
    then show ?thesis using Cons by simp
  qed
qed

lemma holdsControl_keys_kept:
  "holdsControl st k c \<Longrightarrow>
     holdsControl (foldl (\<lambda>st k'. foldl (addControl fmt mt k') st (property obj k')) st ks) k c"
  by (induction ks arbitrary: st) (simp_all add: holdsControl_list_kept)

lemma holdsControl_keys:
  "k \<in> set ks \<Longrightarrow> c0 \<in> set (property obj k) \<Longrightarrow>
     holdsControl (foldl (\<lambda>st k'. foldl (addControl fmt mt k') st (property obj k')) st ks)
       k (resolve mt c0)"
proof (induction ks arbitrary: st)
  case Nil
  then show ?case by simp
next
  case (Cons a ks)
  show ?case
  proof (cases "k = a")
    case True
    then show ?thesis
      using Cons.prems(2) by (simp add: holdsControl_keys_kept holdsControl_list)
  next
    case False
    then show ?thesis using Cons by simp
  qed
qed

lemma objectKeys_complete: "(k, v) \<in> set obj \<Longrightarrow> k \<in> set (objectKeys obj)"
  by (induction obj) (force simp: objectKeys_def split: control_number.splits)+

lemma property_in_keys:
  assumes "c \<in> set (property obj k)"
  shows "k \<in> set (objectKeys obj)"
proof (cases "map_of obj k")
  case None
  then show ?thesis using assms by (simp add: property_def)
next
  case (Some vs)
  then have "(k, vs) \<in> set obj" by (rule map_of_SomeD)
  then show ?thesis by (rule objectKeys_complete)
qed

lemma holdsControl_buildSubTracks:
  "c0 \<in> set (property (controlChanges mt) k) \<Longrightarrow>
     holdsControl (buildSubTracks fmt mt) k (resolve mt c0)"
  by (simp add: buildSubTracks_def addControls_def holdsControl_keys property_in_keys)

subsection \<open>Sub tracks under array indices reach the output\<close>

lemma set_forEach_order: "set (forEach_order a) = {v. \<exists>k. (k, v) \<in> set a \<and> 0 \<le> k}"
  by (auto simp: forEach_order_def intro: rev_image_eqI)

lemma subtrackAt_flatten:
  assumes "subtrackAt st c i = Some t" "0 \<le> c" "0 \<le> i"
  shows "t \<in> set (concat (map forEach_order (forEach_order st)))"
proof -
  from assms(1) obtain row where row: "map_of st c = Some row" "map_of row i = Some t"
    by (auto simp: subtrackAt_def property_def split: option.splits)
  then have "(c, row) \<in> set st" "(i, t) \<in> set row" by (auto dest: map_of_SomeD)
  then have "row \<in> set (forEach_order st)" "t \<in> set (forEach_order row)"
    using assms(2,3) by (auto simp: set_forEach_order)
  then show ?thesis by auto
qed

lemma insertSubTracks_member:
  "t \<in> set ts \<Longrightarrow> \<exists>j. t\<lparr>id' := Some j\<rparr> \<in> set (fst (insertSubTracks (out, trackId) ts))"
proof -
  have kept: "x \<in> set out \<Longrightarrow> x \<in> set (fst (insertSubTracks (out, trackId) ts))"
    for x out trackId ts
    by (induction ts arbitrary: out trackId) simp_all
  show "t \<in> set ts \<Longrightarrow> \<exists>j. t\<lparr>id' := Some j\<rparr> \<in> set (fst (insertSubTracks (out, trackId) ts))"
  proof (induction ts arbitrary: out trackId)
    case Nil
    then show ?case by simp
  next
    case (Cons a ts)
    show ?case
    proof (cases "t = a")
      case True
      have "a\<lparr>id' := Some trackId\<rparr>
          \<in> set (fst (insertSubTracks (out @ [a\<lparr>id' := Some trackId\<rparr>], trackId + 1) ts))"
        by (rule kept) simp
      then show ?thesis using True by auto
    next
      case False
      then show ?thesis using Cons by simp
    qed
  qed
qed

lemma subtrack_emitted:
  assumes "subtrackAt (buildSubTracks fmt mt) c i = Some t" "0 \<le> c" "0 \<le> i"
  shows "\<exists>j. t\<lparr>id' := Some j\<rparr> \<in> set (fst (splitTrack fmt acc mt))"
proof -
  obtain out trackId where acc: "acc = (out, trackId)" by (cases acc)
  show ?thesis
    unfolding splitTrack_def acc
    by (rule insertSubTracks_member) (rule subtrackAt_flatten [OF assms])
qed

lemma resolve_channel:
  "channel (resolve mt e) = (if channel e = -1 then channelNumber mt else channel e)"
  by (simp add: resolve_def Let_def)

lemma resolve_instrument:
  "instrument (resolve mt e)
     = (if instrument e = -1
        then (if instrumentNumber mt = -1 then 0 else instrumentNumber mt)
        else instrument e)"
  by (simp add: resolve_def Let_def)

text \<open>
  Claim C8. The splitter resolves the channel of a note or control change to its own when
  set and to the raw track's otherwise, and its instrument to its own when set, else to
  the raw track's, else to 0. Every note of the raw track, so resolved, is among the notes
  of the sub track under that channel and instrument, and every control change, so
  resolved, is among that sub track's control changes under its controller; that sub track
  carries this channel and instrument number, and when both are array indices it is, with
  its id, one of the tracks put out.
\<close>

theorem split_places_by_resolved_key:
  "channel (resolve mt e) = (if channel e = -1 then channelNumber mt else channel e)
   \<and> instrument (resolve mt e)
       = (if instrument e = -1
          then (if instrumentNumber mt = -1 then 0 else instrumentNumber mt)
          else instrument e)
   \<and> (\<forall>n \<in> set (notes' mt).
        \<exists>sub. subtrackAt (buildSubTracks fmt mt) (channel (resolve mt n)) (instrument (resolve mt n))
                 = Some sub
           \<and> resolve mt n \<in> set (notes' sub)
           \<and> channelNumber sub = channel (resolve mt n)
           \<and> instrumentNumber sub = instrument (resolve mt n)
           \<and> (0 \<le> channel (resolve mt n) \<and> 0 \<le> instrument (resolve mt n)
                \<longrightarrow> (\<exists>j. sub\<lparr>id' := Some j\<rparr> \<in> set (fst (splitTrack fmt acc mt)))))
   \<and> (\<forall>k. \<forall>c \<in> set (property (controlChanges mt) k).
        \<exists>sub. subtrackAt (buildSubTracks fmt mt) (channel (resolve mt c)) (instrument (resolve mt c))
                 = Some sub
           \<and> resolve mt c \<in> set (property (controlChanges sub) k)
           \<and> channelNumber sub = channel (resolve mt c)
           \<and> instrumentNumber sub = instrument (resolve mt c)
           \<and> (0 \<le> channel (resolve mt c) \<and> 0 \<le> instrument (resolve mt c)
                \<longrightarrow> (\<exists>j. sub\<lparr>id' := Some j\<rparr> \<in> set (fst (splitTrack fmt acc mt)))))"
proof (intro conjI ballI allI)
  show "channel (resolve mt e) = (if channel e = -1 then channelNumber mt else channel e)"
    by (rule resolve_channel)
  show "instrument (resolve mt e)
      = (if instrument e = -1
         then (if instrumentNumber mt = -1 then 0 else instrumentNumber mt)
         else instrument e)"
    by (rule resolve_instrument)
next
  fix n assume "n \<in> set (notes' mt)"
  then obtain sub where sub:
    "subtrackAt (buildSubTracks fmt mt) (channel (resolve mt n)) (instrument (resolve mt n)) = Some sub"
    "resolve mt n \<in> set (notes' sub)"
    using holdsNote_buildSubTracks [of n mt fmt] by (auto simp: holdsNote_def)
  moreover have "channelNumber sub = channel (resolve mt n) \<and> instrumentNumber sub = instrument (resolve mt n)"
    using keyed_buildSubTracks [of fmt mt] sub(1) by (simp add: keyed_def)
  ultimately show "\<exists>sub. subtrackAt (buildSubTracks fmt mt) (channel (resolve mt n))
         (instrument (resolve mt n)) = Some sub
      \<and> resolve mt n \<in> set (notes' sub)
      \<and> channelNumber sub = channel (resolve mt n)
      \<and> instrumentNumber sub = instrument (resolve mt n)
      \<and> (0 \<le> channel (resolve mt n) \<and> 0 \<le> instrument (resolve mt n)
           \<longrightarrow> (\<exists>j. sub\<lparr>id' := Some j\<rparr> \<in> set (fst (splitTrack fmt acc mt))))"
    using subtrack_emitted [of fmt mt _ _ sub acc] by blast
next
  fix k c assume "c \<in> set (property (controlChanges mt) k)"
  then obtain sub where sub:
    "subtrackAt (buildSubTracks fmt mt) (channel (resolve mt c)) (instrument (resolve mt c)) = Some sub"
    "resolve mt c \<in> set (property (controlChanges sub) k)"
    using holdsControl_buildSubTracks [of c mt k fmt] by (auto simp: holdsControl_def)
  moreover have "channelNumber sub = channel (resolve mt c) \<and> instrumentNumber sub = instrument (resolve mt c)"
    using keyed_buildSubTracks [of fmt mt] sub(1) by (simp add: keyed_def)
  ultimately show "\<exists>sub. subtrackAt (buildSubTracks fmt mt) (channel (resolve mt c))
         (instrument (resolve mt c)) = Some sub
      \<and> resolve mt c \<in> set (property (controlChanges sub) k)
      \<and> channelNumber sub = channel (resolve mt c)
      \<and> instrumentNumber sub = instrument (resolve mt c)
      \<and> (0 \<le> channel (resolve mt c) \<and> 0 \<le> instrument (resolve mt c)
           \<longrightarrow> (\<exists>j. sub\<lparr>id' := Some j\<rparr> \<in> set (fst (splitTrack fmt acc mt))))"
    using subtrack_emitted [of fmt mt _ _ sub acc] by blast
qed

theorem split_places_by_resolved_key_witness:
  "example_note \<in> set (notes' example_mixedTrack)
   \<and> channel (resolve example_mixedTrack example_note) = 2
   \<and> instrument (resolve example_mixedTrack example_note) = 0
   \<and> (\<exists>sub. subtrackAt (buildSubTracks 1 example_mixedTrack) 2 0 = Some sub
         \<and> resolve example_mixedTrack example_note \<in> set (notes' sub)
         \<and> channelNumber sub = 2 \<and> instrumentNumber sub = 0
         \<and> (\<exists>j. sub\<lparr>id' := Some j\<rparr> \<in> set (fst (splitTrack 1 ([], 0) example_mixedTrack))))
   \<and> example_control \<in> set (property (controlChanges example_mixedTrack) (ControllerNumber 7))
   \<and> (\<exists>sub. subtrackAt (buildSubTracks 1 example_mixedTrack) 3 5 = Some sub
         \<and> resolve example_mixedTrack example_control
              \<in> set (property (controlChanges sub) (ControllerNumber 7))
         \<and> channelNumber sub = 3 \<and> instrumentNumber sub = 5
         \<and> (\<exists>j. sub\<lparr>id' := Some j\<rparr> \<in> set (fst (splitTrack 1 ([], 0) example_mixedTrack))))"
proof -
  note placed = split_places_by_resolved_key [of example_mixedTrack example_note 1 "([], 0)"]
  have n: "example_note \<in> set (notes' example_mixedTrack)"
    by (simp add: example_mixedTrack_def)
  have c: "example_control \<in> set (property (controlChanges example_mixedTrack) (ControllerNumber 7))"
    by (simp add: example_mixedTrack_def property_def)
  have nk: "channel (resolve example_mixedTrack example_note) = 2"
    "instrument (resolve example_mixedTrack example_note) = 0"
    using placed by (simp_all add: example_mixedTrack_def example_note_def)
  have ck: "channel (resolve example_mixedTrack example_control) = 3"
    "instrument (resolve example_mixedTrack example_control) = 5"
    by (simp_all add: resolve_def example_control_def Control_new_def)
  from placed n have "\<exists>sub. subtrackAt (buildSubTracks 1 example_mixedTrack)
        (channel (resolve example_mixedTrack example_note))
        (instrument (resolve example_mixedTrack example_note)) = Some sub
      \<and> resolve example_mixedTrack example_note \<in> set (notes' sub)
      \<and> channelNumber sub = channel (resolve example_mixedTrack example_note)
      \<and> instrumentNumber sub = instrument (resolve example_mixedTrack example_note)
      \<and> (0 \<le> channel (resolve example_mixedTrack example_note)
            \<and> 0 \<le> instrument (resolve example_mixedTrack example_note)
           \<longrightarrow> (\<exists>j. sub\<lparr>id' := Some j\<rparr> \<in> set (fst (splitTrack 1 ([], 0) example_mixedTrack))))"
    by blast
  then have notePlaced: "\<exists>sub. subtrackAt (buildSubTracks 1 example_mixedTrack) 2 0 = Some sub
         \<and> resolve example_mixedTrack example_note \<in> set (notes' sub)
         \<and> channelNumber sub = 2 \<and> instrumentNumber sub = 0
         \<and> (\<exists>j. sub\<lparr>id' := Some j\<rparr> \<in> set (fst (splitTrack 1 ([], 0) example_mixedTrack)))"
    by (simp add: nk)
  from placed c have "\<exists>sub. subtrackAt (buildSubTracks 1 example_mixedTrack)
        (channel (resolve example_mixedTrack example_control))
        (instrument (resolve example_mixedTrack example_control)) = Some sub
      \<and> resolve example_mixedTrack example_control
           \<in> set (property (controlChanges sub) (ControllerNumber 7))
      \<and> channelNumber sub = channel (resolve example_mixedTrack example_control)
      \<and> instrumentNumber sub = instrument (resolve example_mixedTrack example_control)
      \<and> (0 \<le> channel (resolve example_mixedTrack example_control)
            \<and> 0 \<le> instrument (resolve example_mixedTrack example_control)
           \<longrightarrow> (\<exists>j. sub\<lparr>id' := Some j\<rparr> \<in> set (fst (splitTrack 1 ([], 0) example_mixedTrack))))"
    by blast
  then have controlPlaced: "\<exists>sub. subtrackAt (buildSubTracks 1 example_mixedTrack) 3 5 = Some sub
         \<and> resolve example_mixedTrack example_control
              \<in> set (property (controlChanges sub) (ControllerNumber 7))
         \<and> channelNumber sub = 3 \<and> instrumentNumber sub = 5
         \<and> (\<exists>j. sub\<lparr>id' := Some j\<rparr> \<in> set (fst (splitTrack 1 ([], 0) example_mixedTrack)))"
    by (simp add: ck)
  show ?thesis using n c nk notePlaced controlPlaced by simp
qed

lemma example_split:
  "fst (splitTrack 1 ([], 0) example_mixedTrack)
     = [\<lparr>id' = Some 0, name = Some ''Piano'', channelNumber = 2, instrumentNumber = 0,
         notes' = [example_note\<lparr>channel := 2, instrument := 0\<rparr>], controlChanges = [],
         midiType = Some 1\<rparr>,
        \<lparr>id' = Some 1, name = Some ''Piano'', channelNumber = 3, instrumentNumber = 5,
         notes' = [], controlChanges = [(ControllerNumber 7, [example_control])],
         midiType = Some 1\<rparr>]"
  by (simp add: splitTrack_def buildSubTracks_def addControls_def objectKeys_def addNote_def
      addControl_def resolve_def getSubtrack_def setSubtrack_def property_def Track_new_def
      forEach_order_def Let_def example_mixedTrack_def example_note_def example_control_def
      Control_new_def)

text \<open>
  A track under a key that is not an array index is not put out. The demuxer never builds
  such a raw track (lemma \<open>rawTracks_wf\<close>): a note carries the channel of its note-on.
\<close>

lemma split_skips_negative_keys:
  "splitTracks fmt [(Track_new None (-1) (-1))\<lparr>notes' := [example_note]\<rparr>] = []"
  by (simp add: splitTracks_def splitTrack_def buildSubTracks_def addControls_def objectKeys_def
      addNote_def resolve_def getSubtrack_def setSubtrack_def property_def Track_new_def
      forEach_order_def Let_def example_note_def)

end
